theory Spec2Isabelle
  imports Complex_Main "HOL-Library.AList"
begin

section \<open>JavaScript numbers\<close>

text \<open>
  A JavaScript \<open>number\<close> is a double. The model keeps the three non-finite values the
  code tests for (\<open>Number.isNaN\<close>, \<open>Number.isFinite\<close>) and idealises every finite
  double as a real number, so rounding is not modelled.
\<close>

datatype number = NaN | NegInf | Fin real | PosInf

fun isFiniteNumber :: "number \<Rightarrow> bool" where
  "isFiniteNumber (Fin _) = True"
| "isFiniteNumber _ = False"

text \<open>\<open>Math.min\<close> and \<open>Math.max\<close>: NaN if an argument is NaN.\<close>

fun Math_min :: "number \<Rightarrow> number \<Rightarrow> number" where
  "Math_min NaN _ = NaN"
| "Math_min _ NaN = NaN"
| "Math_min NegInf _ = NegInf"
| "Math_min _ NegInf = NegInf"
| "Math_min PosInf b = b"
| "Math_min a PosInf = a"
| "Math_min (Fin a) (Fin b) = Fin (min a b)"

fun Math_max :: "number \<Rightarrow> number \<Rightarrow> number" where
  "Math_max NaN _ = NaN"
| "Math_max _ NaN = NaN"
| "Math_max PosInf _ = PosInf"
| "Math_max _ PosInf = PosInf"
| "Math_max NegInf b = b"
| "Math_max a NegInf = a"
| "Math_max (Fin a) (Fin b) = Fin (max a b)"

text \<open>
  The remainder operator \<open>%\<close> on integer-valued numbers: the result has the sign of the
  dividend (truncated division), unlike HOL's \<open>mod\<close>.
\<close>

definition js_rem :: "int \<Rightarrow> int \<Rightarrow> int" where
  "js_rem a b = sgn a * (\<bar>a\<bar> mod \<bar>b\<bar>)"

section \<open>Timeline index helpers\<close>

text \<open>
  \<open>components/maps/TimelineScrubber.tsx\<close>: \<open>clamp\<close>, \<open>nextFrameIndex\<close> and
  \<open>prevFrameIndex\<close>. Frame indices and frame counts are integers.
\<close>

definition clamp :: "int \<Rightarrow> int \<Rightarrow> int" where
  "clamp i n = (if n \<le> 0 then 0 else max 0 (min (n - 1) i))"

definition nextFrameIndex :: "int \<Rightarrow> int \<Rightarrow> int" where
  "nextFrameIndex i n = (if n \<le> 0 then 0 else js_rem (i + 1) n)"

definition prevFrameIndex :: "int \<Rightarrow> int \<Rightarrow> int" where
  "prevFrameIndex i n = (if n \<le> 0 then 0 else js_rem (i - 1 + n) n)"

text \<open>
  \<open>app/lib/maps/timeline.ts\<close>: the exported helpers of the same names clamp their
  argument first.
\<close>

definition clampFrameIndex :: "int \<Rightarrow> int \<Rightarrow> int" where
  "clampFrameIndex index frameCount =
     (if frameCount \<le> 0 then 0 else max 0 (min (frameCount - 1) index))"

definition timeline_nextFrameIndex :: "int \<Rightarrow> int \<Rightarrow> int" where
  "timeline_nextFrameIndex current frameCount =
     (if frameCount \<le> 0 then 0
      else let c = clampFrameIndex current frameCount in js_rem (c + 1) frameCount)"

definition timeline_prevFrameIndex :: "int \<Rightarrow> int \<Rightarrow> int" where
  "timeline_prevFrameIndex current frameCount =
     (if frameCount \<le> 0 then 0
      else let c = clampFrameIndex current frameCount in js_rem (c - 1 + frameCount) frameCount)"

section \<open>Layer catalog, views and runtime state\<close>

text \<open>
  \<open>app/lib/maps/types.ts\<close>. A \<open>LayerId\<close> is a string at run time; the reducer receives
  it unchecked, so the model keeps it a string. The presentation fields of a catalog item
  (title, subtitle, legend, source) play no part in the state and are left out.
\<close>

datatype MapViewId = Radar | Wildfire | Storm | Aviation

type_synonym LayerId = string

datatype NerdyVisibility = Simple | Nerdy | Both

datatype TimestampMode = Radar_timeline | Latest_snapshot | Daily_snapshot

datatype LayerGroupId = Weather_group | Fire_group | Storm_group | Aviation_group

record LayerCatalogItem =
  layerId :: LayerId
  layerGroup :: LayerGroupId
  visibility :: NerdyVisibility
  timestampMode :: TimestampMode
  defaultOpacity :: number
  zIndex :: int

record MapViewDefinition =
  view_id :: MapViewId
  presetEnabledLayers :: "LayerId list"
  presetLayerOpacity :: "(LayerId \<times> number) list option"
  timelineDriverLayer :: "LayerId option"

text \<open>
  A layer's runtime object. A JavaScript object may lack a property: \<open>None\<close> is the
  absent (\<open>undefined\<close>) property.
\<close>

record LayerRuntimeState =
  enabled :: "bool option"
  opacity :: "number option"

record LatLon =
  lat :: number
  lon :: number

record Bounds =
  north :: number
  south :: number
  east :: number
  west :: number

record MapViewport =
  center :: LatLon
  zoom :: number
  bounds :: "Bounds option"

record RadarTime =
  frameIndex :: int
  playing :: bool

text \<open>
  \<open>layers\<close> is a JavaScript object used as a dictionary: an association list in
  insertion order, each key once.
\<close>

record MapRuntimeState =
  viewId :: MapViewId
  nerdy :: bool
  viewport :: MapViewport
  layers :: "(LayerId \<times> LayerRuntimeState) list"
  radarTime :: RadarTime
  wildfireTime :: "string option"

datatype MapAction =
    SET_VIEW MapViewId
  | SET_NERDY bool
  | SET_LAYER_ENABLED LayerId bool
  | SET_LAYER_OPACITY LayerId number
  | SET_VIEWPORT MapViewport
  | SET_RADAR_FRAME int
  | SET_RADAR_PLAYING bool

text \<open>\<open>app/lib/maps/layerCatalog.ts\<close>\<close>

definition LAYER_CATALOG :: "LayerCatalogItem list" where
  "LAYER_CATALOG =
    [\<lparr>layerId = ''radar.reflectivity'', layerGroup = Weather_group, visibility = Both,
      timestampMode = Radar_timeline, defaultOpacity = Fin 0.9, zIndex = 100\<rparr>,
     \<lparr>layerId = ''wildfire.smoke'', layerGroup = Fire_group, visibility = Both,
      timestampMode = Latest_snapshot, defaultOpacity = Fin 0.55, zIndex = 80\<rparr>,
     \<lparr>layerId = ''wildfire.perimeters'', layerGroup = Fire_group, visibility = Both,
      timestampMode = Latest_snapshot, defaultOpacity = Fin 0.85, zIndex = 85\<rparr>,
     \<lparr>layerId = ''wildfire.hotspots'', layerGroup = Fire_group, visibility = Nerdy,
      timestampMode = Latest_snapshot, defaultOpacity = Fin 0.9, zIndex = 90\<rparr>,
     \<lparr>layerId = ''lightning.strikes'', layerGroup = Storm_group, visibility = Nerdy,
      timestampMode = Latest_snapshot, defaultOpacity = Fin 0.95, zIndex = 120\<rparr>,
     \<lparr>layerId = ''alerts.polygons'', layerGroup = Storm_group, visibility = Both,
      timestampMode = Latest_snapshot, defaultOpacity = Fin 0.95, zIndex = 130\<rparr>]"

text \<open>\<open>app/lib/maps/views.ts\<close>\<close>

definition MAP_VIEWS :: "MapViewDefinition list" where
  "MAP_VIEWS =
    [\<lparr>view_id = Radar, presetEnabledLayers = [''radar.reflectivity''],
      presetLayerOpacity = None, timelineDriverLayer = Some ''radar.reflectivity''\<rparr>,
     \<lparr>view_id = Wildfire,
      presetEnabledLayers = [''radar.reflectivity'', ''wildfire.smoke'', ''wildfire.perimeters''],
      presetLayerOpacity = Some [(''radar.reflectivity'', Fin 0.85), (''wildfire.smoke'', Fin 0.55),
                                 (''wildfire.perimeters'', Fin 0.9)],
      timelineDriverLayer = Some ''radar.reflectivity''\<rparr>,
     \<lparr>view_id = Storm, presetEnabledLayers = [''radar.reflectivity'', ''lightning.strikes''],
      presetLayerOpacity = None, timelineDriverLayer = Some ''radar.reflectivity''\<rparr>,
     \<lparr>view_id = Aviation, presetEnabledLayers = [''radar.reflectivity''],
      presetLayerOpacity = None, timelineDriverLayer = Some ''radar.reflectivity''\<rparr>]"

section \<open>The map state reducer\<close>

text \<open>
  \<open>app/lib/maps/state.ts\<close>. The module constants \<open>LAYER_CATALOG\<close> and \<open>MAP_VIEWS\<close> are
  passed as the parameters \<open>cat\<close> and \<open>views\<close>, so that the properties below hold for
  every catalog and every list of views.
\<close>

definition clamp01 :: "number \<Rightarrow> number" where
  "clamp01 n = (if n = NaN then Fin 0 else Math_max (Fin 0) (Math_min (Fin 1) n))"

text \<open>\<open>Object.fromEntries\<close>: a later entry for a key replaces the earlier value.\<close>

definition Object_fromEntries :: "('k \<times> 'v) list \<Rightarrow> ('k \<times> 'v) list" where
  "Object_fromEntries es = fold (\<lambda>(k, v) obj. AList.update k v obj) es []"

definition buildDefaultLayers :: "LayerCatalogItem list \<Rightarrow> (LayerId \<times> LayerRuntimeState) list" where
  "buildDefaultLayers cat =
     Object_fromEntries
       (map (\<lambda>l. (layerId l, \<lparr>enabled = Some False, opacity = Some (defaultOpacity l)\<rparr>)) cat)"

text \<open>\<open>for (const id of view.presetEnabledLayers) if (layers[id]) layers[id].enabled = true\<close>\<close>

definition applyPresetEnabled ::
  "LayerId list \<Rightarrow> (LayerId \<times> LayerRuntimeState) list \<Rightarrow> (LayerId \<times> LayerRuntimeState) list" where
  "applyPresetEnabled ids ls =
     fold (\<lambda>k obj. case map_of obj k of
                      None \<Rightarrow> obj
                    | Some e \<Rightarrow> AList.update k (e\<lparr>enabled := Some True\<rparr>) obj) ids ls"

text \<open>The loop over \<open>Object.entries(view.presetLayerOpacity)\<close>; every value is a number.\<close>

definition applyPresetOpacity ::
  "(LayerId \<times> number) list \<Rightarrow> (LayerId \<times> LayerRuntimeState) list
     \<Rightarrow> (LayerId \<times> LayerRuntimeState) list" where
  "applyPresetOpacity ops ls =
     fold (\<lambda>(k, op) obj. case map_of obj k of
                      None \<Rightarrow> obj
                    | Some e \<Rightarrow> AList.update k (e\<lparr>opacity := Some (clamp01 op)\<rparr>) obj) ops ls"

record InitOpts =
  opt_viewId :: "MapViewId option"
  opt_nerdy :: "bool option"
  opt_viewport :: "MapViewport option"

definition defaultViewport :: MapViewport where
  "defaultViewport =
     \<lparr>center = \<lparr>lat = Fin 33.4152, lon = Fin (- 111.8315)\<rparr>, zoom = Fin 9, bounds = None\<rparr>"

definition createInitialMapState ::
  "LayerCatalogItem list \<Rightarrow> MapViewDefinition list \<Rightarrow> InitOpts \<Rightarrow> MapRuntimeState" where
  "createInitialMapState cat views opts =
     (let vid = (case opt_viewId opts of None \<Rightarrow> Radar | Some v \<Rightarrow> v);
          nrd = (case opt_nerdy opts of None \<Rightarrow> False | Some b \<Rightarrow> b);
          vp = (case opt_viewport opts of None \<Rightarrow> defaultViewport | Some p \<Rightarrow> p);
          ls0 = buildDefaultLayers cat;
          ls = (case find (\<lambda>v. view_id v = vid) views of
                  None \<Rightarrow> ls0
                | Some view \<Rightarrow>
                    (let ls1 = applyPresetEnabled (presetEnabledLayers view) ls0
                     in case presetLayerOpacity view of
                          None \<Rightarrow> ls1
                        | Some ops \<Rightarrow> applyPresetOpacity ops ls1))
      in \<lparr>viewId = vid, nerdy = nrd, viewport = vp, layers = ls,
          radarTime = \<lparr>frameIndex = 0, playing = False\<rparr>, wildfireTime = None\<rparr>)"

text \<open>
  The loop of \<open>SET_VIEW\<close> over \<open>Object.entries(state.layers)\<close>:
  \<open>if (next.layers[layerId]) next.layers[layerId].opacity = layerState.opacity\<close>.
\<close>

definition carryOpacity ::
  "(LayerId \<times> LayerRuntimeState) list \<Rightarrow> (LayerId \<times> LayerRuntimeState) list
     \<Rightarrow> (LayerId \<times> LayerRuntimeState) list" where
  "carryOpacity old nxt =
     fold (\<lambda>(k, layerState) obj. case map_of obj k of
                      None \<Rightarrow> obj
                    | Some e \<Rightarrow> AList.update k (e\<lparr>opacity := opacity layerState\<rparr>) obj) old nxt"

text \<open>\<open>{ ...state.layers[id] }\<close>: spreading \<open>undefined\<close> gives the empty object.\<close>

definition spreadLayer :: "LayerRuntimeState option \<Rightarrow> LayerRuntimeState" where
  "spreadLayer x = (case x of None \<Rightarrow> \<lparr>enabled = None, opacity = None\<rparr> | Some e \<Rightarrow> e)"

fun mapReducer ::
  "LayerCatalogItem list \<Rightarrow> MapViewDefinition list \<Rightarrow> MapRuntimeState \<Rightarrow> MapAction
     \<Rightarrow> MapRuntimeState" where
  "mapReducer cat views state (SET_VIEW v) =
     (let nxt = createInitialMapState cat views
                  \<lparr>opt_viewId = Some v, opt_nerdy = Some (nerdy state),
                   opt_viewport = Some (viewport state)\<rparr>
      in nxt\<lparr>layers := carryOpacity (layers state) (layers nxt), radarTime := radarTime state\<rparr>)"
| "mapReducer cat views state (SET_NERDY b) = state\<lparr>nerdy := b\<rparr>"
| "mapReducer cat views state (SET_LAYER_ENABLED k b) =
     state\<lparr>layers :=
       AList.update k ((spreadLayer (map_of (layers state) k))\<lparr>enabled := Some b\<rparr>) (layers state)\<rparr>"
| "mapReducer cat views state (SET_LAYER_OPACITY k op) =
     state\<lparr>layers :=
       AList.update k ((spreadLayer (map_of (layers state) k))\<lparr>opacity := Some (clamp01 op)\<rparr>)
         (layers state)\<rparr>"
| "mapReducer cat views state (SET_VIEWPORT vp) = state\<lparr>viewport := vp\<rparr>"
| "mapReducer cat views state (SET_RADAR_FRAME i) =
     state\<lparr>radarTime := (radarTime state)\<lparr>frameIndex := i\<rparr>\<rparr>"
| "mapReducer cat views state (SET_RADAR_PLAYING p) =
     state\<lparr>radarTime := (radarTime state)\<lparr>playing := p\<rparr>\<rparr>"

text \<open>
  The state \<open>MapsScreen\<close> starts from (\<open>app/(tabs)/maps.tsx\<close>):
  \<open>createInitialMapState({ viewId: 'radar', nerdy: false })\<close>.
\<close>

definition screenInitialState :: MapRuntimeState where
  "screenInitialState =
     createInitialMapState LAYER_CATALOG MAP_VIEWS
       \<lparr>opt_viewId = Some Radar, opt_nerdy = Some False, opt_viewport = None\<rparr>"

text \<open>
  Two states a user reaches from there: the radar layer dimmed to 0.3, and the hotspots
  layer switched on by hand.
\<close>

definition radarDimmedState :: MapRuntimeState where
  "radarDimmedState =
     mapReducer LAYER_CATALOG MAP_VIEWS screenInitialState
       (SET_LAYER_OPACITY ''radar.reflectivity'' (Fin 0.3))"

definition hotspotsOnState :: MapRuntimeState where
  "hotspotsOnState =
     mapReducer LAYER_CATALOG MAP_VIEWS screenInitialState
       (SET_LAYER_ENABLED ''wildfire.hotspots'' True)"

section \<open>Strings and dates\<close>

text \<open>\<open>String.prototype.startsWith\<close>, \<open>includes\<close> and \<open>endsWith\<close>.\<close>

fun startsWith :: "string \<Rightarrow> string \<Rightarrow> bool" where
  "startsWith s [] = True"
| "startsWith [] (c # p) = False"
| "startsWith (a # s) (c # p) = (a = c \<and> startsWith s p)"

fun str_includes :: "string \<Rightarrow> string \<Rightarrow> bool" where
  "str_includes [] p = (p = [])"
| "str_includes (a # s) p = (startsWith (a # s) p \<or> str_includes s p)"

definition endsWith :: "string \<Rightarrow> string \<Rightarrow> bool" where
  "endsWith s p = startsWith (rev s) (rev p)"

text \<open>
  \<open>new Date(ms).toISOString()\<close>. A \<open>Date\<close> holds a whole number of milliseconds, the
  argument truncated towards zero, and is invalid beyond 8.64e15 ms either side of the
  epoch; \<open>toISOString\<close> throws a \<open>RangeError\<close> on an invalid date. The text it returns
  is determined by the millisecond count and is represented by it.
\<close>

datatype error = FetchFailed | HttpStatus int | MissingHost | RangeError

datatype iso = ISO int

definition ToIntegerOrInfinity :: "real \<Rightarrow> int" where
  "ToIntegerOrInfinity x = (if 0 \<le> x then \<lfloor>x\<rfloor> else \<lceil>x\<rceil>)"

definition toISOString :: "real \<Rightarrow> error + iso" where
  "toISOString ms =
     (if \<bar>ms\<bar> \<le> 8640000000000000 then Inr (ISO (ToIntegerOrInfinity ms)) else Inl RangeError)"

section \<open>The RainViewer manifest\<close>

text \<open>
  The JSON a manifest fetch returns. \<open>jsv\<close> is a JSON value as far as \<open>typeof\<close>
  distinguishes it: a number, a string, or anything else (including a missing property).
  Optional properties are options. The elements of \<open>past\<close> and \<open>nowcast\<close> are objects.
\<close>

datatype jsv = JNum real | JStr string | JOther

record rv_entry =
  e_time :: jsv
  e_path :: jsv

record rv_radar =
  r_past :: "rv_entry list option"
  r_nowcast :: "rv_entry list option"

record RainViewerMaps =
  m_host :: "string option"
  m_radar :: "rv_radar option"

text \<open>
  What \<open>await fetch(url)\<close> followed by \<open>res.json()\<close> delivers: a rejection (transport or
  parse failure), a response whose \<open>ok\<close> is false with its status, or the parsed body of an
  OK response.
\<close>

datatype reply = Rejected | NotOk int | Body RainViewerMaps

text \<open>\<open>data.radar?.past ?? []\<close> and \<open>data.radar?.nowcast ?? []\<close>\<close>

definition pastOf :: "RainViewerMaps \<Rightarrow> rv_entry list" where
  "pastOf d = (case m_radar d of None \<Rightarrow> [] | Some r \<Rightarrow> (case r_past r of None \<Rightarrow> [] | Some ps \<Rightarrow> ps))"

definition nowcastOf :: "RainViewerMaps \<Rightarrow> rv_entry list" where
  "nowcastOf d =
     (case m_radar d of None \<Rightarrow> [] | Some r \<Rightarrow> (case r_nowcast r of None \<Rightarrow> [] | Some ps \<Rightarrow> ps))"

section \<open>The RainViewer provider\<close>

text \<open>\<open>app/lib/maps/radar/providers/rainviewer.ts\<close>\<close>

record RadarFrame =
  frame_t :: real
  frame_iso :: iso

record ProviderOpts =
  opt_ttlMs :: "int option"
  opt_includeNowcast :: "bool option"
  opt_maxFrames :: "int option"
  opt_maxZoom :: "int option"

definition ttlMs :: "ProviderOpts \<Rightarrow> int" where
  "ttlMs opts = (case opt_ttlMs opts of None \<Rightarrow> 60000 | Some v \<Rightarrow> v)"

definition includeNowcast :: "ProviderOpts \<Rightarrow> bool" where
  "includeNowcast opts = (case opt_includeNowcast opts of None \<Rightarrow> True | Some v \<Rightarrow> v)"

definition maxFrames :: "ProviderOpts \<Rightarrow> int" where
  "maxFrames opts = (case opt_maxFrames opts of None \<Rightarrow> 12 | Some v \<Rightarrow> v)"

definition maxZoom :: "ProviderOpts \<Rightarrow> int" where
  "maxZoom opts = (case opt_maxZoom opts of None \<Rightarrow> 10 | Some v \<Rightarrow> v)"

definition toFrame :: "real \<Rightarrow> error + RadarFrame" where
  "toFrame t = (case toISOString (t * 1000) of
                  Inl e \<Rightarrow> Inl e
                | Inr s \<Rightarrow> Inr \<lparr>frame_t = t, frame_iso = s\<rparr>)"

text \<open>\<open>xs.map(f)\<close> for an \<open>f\<close> that may throw: the first exception ends the map.\<close>

fun mapThrowing :: "('a \<Rightarrow> error + 'b) \<Rightarrow> 'a list \<Rightarrow> error + 'b list" where
  "mapThrowing f [] = Inr []"
| "mapThrowing f (x # xs) =
     (case f x of
        Inl e \<Rightarrow> Inl e
      | Inr y \<Rightarrow> (case mapThrowing f xs of Inl e \<Rightarrow> Inl e | Inr ys \<Rightarrow> Inr (y # ys)))"

text \<open>
  The filter of \<open>fetchFrames\<close>:
  \<open>typeof p.time === 'number' && typeof p.path === 'string' && p.path.length > 3\<close>.
\<close>

fun validEntry :: "rv_entry \<Rightarrow> bool" where
  "validEntry e = (case (e_time e, e_path e) of
                     (JNum _, JStr p) \<Rightarrow> length p > 3
                   | _ \<Rightarrow> False)"

text \<open>The time and the path of an entry that passed a filter.\<close>

definition entryTime :: "rv_entry \<Rightarrow> real" where
  "entryTime e = (case e_time e of JNum r \<Rightarrow> r | _ \<Rightarrow> 0)"

definition entryPath :: "rv_entry \<Rightarrow> string" where
  "entryPath e = (case e_path e of JStr p \<Rightarrow> p | _ \<Rightarrow> [])"

text \<open>
  \<open>combined\<close> and \<open>tail\<close> of \<open>fetchFrames\<close>. \<open>Array.prototype.sort\<close> with the comparator
  \<open>a.time - b.time\<close> is a stable ascending sort by time;
  \<open>combined.slice(Math.max(0, combined.length - maxFrames))\<close> drops a prefix.
\<close>

definition keptEntries :: "ProviderOpts \<Rightarrow> RainViewerMaps \<Rightarrow> rv_entry list" where
  "keptEntries opts d =
     filter validEntry (pastOf d @ (if includeNowcast opts then nowcastOf d else []))"

definition combinedEntries :: "ProviderOpts \<Rightarrow> RainViewerMaps \<Rightarrow> rv_entry list" where
  "combinedEntries opts d = sort_key entryTime (keptEntries opts d)"

definition tailEntries :: "ProviderOpts \<Rightarrow> RainViewerMaps \<Rightarrow> rv_entry list" where
  "tailEntries opts d =
     (let combined = combinedEntries opts d
      in drop (nat (max 0 (int (length combined) - maxFrames opts))) combined)"

definition fetchFrames :: "ProviderOpts \<Rightarrow> reply \<Rightarrow> error + (RadarFrame list \<times> string \<times> string list)" where
  "fetchFrames opts rep =
     (case rep of
        Rejected \<Rightarrow> Inl FetchFailed
      | NotOk status \<Rightarrow> Inl (HttpStatus status)
      | Body d \<Rightarrow>
          (case m_host d of
             None \<Rightarrow> Inl MissingHost
           | Some h \<Rightarrow>
               if h = [] then Inl MissingHost
               else (case mapThrowing toFrame (map entryTime (tailEntries opts d)) of
                       Inl e \<Rightarrow> Inl e
                     | Inr frames \<Rightarrow> Inr (frames, h, map entryPath (tailEntries opts d)))))"

definition tileSuffix :: string where
  "tileSuffix = ''/256/{z}/{x}/{y}/2/1_1.png''"

definition tileTemplateFor :: "string \<Rightarrow> string \<Rightarrow> string" where
  "tileTemplateFor h p =
     (let looksLikeTemplate = (str_includes p ''{z}'' \<and> str_includes p ''{x}'' \<and> str_includes p ''{y}'')
      in if looksLikeTemplate then h @ p else h @ p @ tileSuffix)"

text \<open>
  The four variables \<open>getFrames\<close> reads and writes, as one provider sees them:
  \<open>cachedFrames\<close> and \<open>cacheExpiresAt\<close> are variables of the module, shared by every
  provider that \<open>createRainViewerProvider\<close> makes; \<open>cachedHost\<close> and \<open>cachedPaths\<close>
  belong to the closure of one provider. \<open>ModuleVars\<close> and \<open>ClosureVars\<close> below keep
  the two kinds apart.
\<close>

record ProviderCache =
  cachedFrames :: "RadarFrame list option"
  cacheExpiresAt :: int
  cachedHost :: "string option"
  cachedPaths :: "string list option"

definition emptyProviderCache :: ProviderCache where
  "emptyProviderCache =
     \<lparr>cachedFrames = None, cacheExpiresAt = 0, cachedHost = None, cachedPaths = None\<rparr>"

text \<open>
  \<open>getFrames\<close>. \<open>now\<close> is \<open>Date.now()\<close> and \<open>rep\<close> is what the upstream would deliver
  to a fetch made by this call. The result is what the caller gets (\<open>Inl\<close>: the rejection
  of the promise), the cache after the call, and the number of upstream fetches made.
\<close>

definition freshFrames :: "ProviderCache \<Rightarrow> int \<Rightarrow> RadarFrame list option" where
  \<comment> \<open>\<open>cachedFrames && now < cacheExpiresAt && cachedHost && cachedPaths\<close>; an empty
     array is truthy, an empty string is not.\<close>
  "freshFrames c now =
     (case (cachedFrames c, cachedHost c, cachedPaths c) of
        (Some frames, Some h, Some ps) \<Rightarrow>
          if now < cacheExpiresAt c \<and> h \<noteq> [] then Some frames else None
      | _ \<Rightarrow> None)"

definition getFrames ::
  "ProviderOpts \<Rightarrow> int \<Rightarrow> reply \<Rightarrow> ProviderCache
     \<Rightarrow> (error + RadarFrame list) \<times> ProviderCache \<times> nat" where
  "getFrames opts now rep c =
     (case freshFrames c now of
        Some frames \<Rightarrow> (Inr frames, c, 0)
      | None \<Rightarrow>
          (case fetchFrames opts rep of
             Inl e \<Rightarrow> (Inl e, c, 1)
           | Inr (frames, h, ps) \<Rightarrow>
               (Inr frames,
                \<lparr>cachedFrames = Some frames, cacheExpiresAt = now + ttlMs opts,
                 cachedHost = Some h, cachedPaths = Some ps\<rparr>, 1)))"

text \<open>
  The module's variables and one provider's own, and \<open>getFrames\<close> of a provider with
  closure variables \<open>c\<close> run on module variables \<open>m\<close>: it sees the four together and
  leaves each kind where it lives.
\<close>

record ModuleVars =
  mod_cachedFrames :: "RadarFrame list option"
  mod_cacheExpiresAt :: int

record ClosureVars =
  clo_cachedHost :: "string option"
  clo_cachedPaths :: "string list option"

definition initialModuleVars :: ModuleVars where
  "initialModuleVars = \<lparr>mod_cachedFrames = None, mod_cacheExpiresAt = 0\<rparr>"

definition initialClosureVars :: ClosureVars where
  "initialClosureVars = \<lparr>clo_cachedHost = None, clo_cachedPaths = None\<rparr>"

definition providerView :: "ModuleVars \<Rightarrow> ClosureVars \<Rightarrow> ProviderCache" where
  "providerView m c =
     \<lparr>cachedFrames = mod_cachedFrames m, cacheExpiresAt = mod_cacheExpiresAt m,
      cachedHost = clo_cachedHost c, cachedPaths = clo_cachedPaths c\<rparr>"

definition providerGetFrames ::
  "ProviderOpts \<Rightarrow> int \<Rightarrow> reply \<Rightarrow> ModuleVars \<Rightarrow> ClosureVars
     \<Rightarrow> (error + RadarFrame list) \<times> ModuleVars \<times> ClosureVars \<times> nat" where
  "providerGetFrames opts now rep m c =
     (case getFrames opts now rep (providerView m c) of
        (result, v, n) \<Rightarrow>
          (result,
           \<lparr>mod_cachedFrames = cachedFrames v, mod_cacheExpiresAt = cacheExpiresAt v\<rparr>,
           \<lparr>clo_cachedHost = cachedHost v, clo_cachedPaths = cachedPaths v\<rparr>, n))"

text \<open>
  The frame times as C4 words them: the times of all past and nowcast entries, sorted
  ascending, cut to the last \<open>N\<close>.
\<close>

definition claimed_frame_times :: "nat \<Rightarrow> RainViewerMaps \<Rightarrow> real list" where
  "claimed_frame_times N d =
     (let ts = sort (map entryTime (pastOf d @ nowcastOf d)) in drop (length ts - N) ts)"

definition defaultProviderOpts :: ProviderOpts where
  "defaultProviderOpts =
     \<lparr>opt_ttlMs = None, opt_includeNowcast = None, opt_maxFrames = None, opt_maxZoom = None\<rparr>"

text \<open>
  A manifest as RainViewer serves it (three entries, the past ones out of order), and a
  body whose only entry has a non-numeric time and no path.
\<close>

definition sampleManifest :: RainViewerMaps where
  "sampleManifest =
     \<lparr>m_host = Some ''https://tilecache.rainviewer.com'',
      m_radar = Some
        \<lparr>r_past = Some [\<lparr>e_time = JNum 1700000600, e_path = JStr ''/v2/radar/1700000600''\<rparr>,
                        \<lparr>e_time = JNum 1700000000, e_path = JStr ''/v2/radar/1700000000''\<rparr>],
         r_nowcast = Some [\<lparr>e_time = JNum 1700001200, e_path = JStr ''/v2/radar/1700001200''\<rparr>]\<rparr>\<rparr>"

definition malformedManifest :: RainViewerMaps where
  "malformedManifest =
     \<lparr>m_host = Some ''https://tilecache.rainviewer.com'',
      m_radar = Some \<lparr>r_past = Some [\<lparr>e_time = JStr ''soon'', e_path = JOther\<rparr>],
                      r_nowcast = None\<rparr>\<rparr>"

definition sampleFrames :: "RadarFrame list" where
  "sampleFrames =
     [\<lparr>frame_t = 1700000000, frame_iso = ISO 1700000000000\<rparr>,
      \<lparr>frame_t = 1700000600, frame_iso = ISO 1700000600000\<rparr>,
      \<lparr>frame_t = 1700001200, frame_iso = ISO 1700001200000\<rparr>]"

definition samplePaths :: "string list" where
  "samplePaths = [''/v2/radar/1700000000'', ''/v2/radar/1700000600'', ''/v2/radar/1700001200'']"

definition laterManifest :: RainViewerMaps where
  "laterManifest =
     \<lparr>m_host = Some ''https://cdn.rainviewer.com'',
      m_radar = Some
        \<lparr>r_past = Some [\<lparr>e_time = JNum 1700001800, e_path = JStr ''/v2/radar/1700001800''\<rparr>],
         r_nowcast = None\<rparr>\<rparr>"

definition laterFrames :: "RadarFrame list" where
  "laterFrames = [\<lparr>frame_t = 1700001800, frame_iso = ISO 1700001800000\<rparr>]"

text \<open>The provider's cache after a first \<open>getFrames\<close> at time 0 that received \<open>sampleManifest\<close>.\<close>

definition loadedCache :: ProviderCache where
  "loadedCache =
     \<lparr>cachedFrames = Some sampleFrames, cacheExpiresAt = 60000,
      cachedHost = Some ''https://tilecache.rainviewer.com'', cachedPaths = Some samplePaths\<rparr>"

section \<open>The RainViewer adapter of radarIem.ts\<close>

text \<open>\<open>app/lib/maps/radarIem.ts\<close>\<close>

record RadarScan =
  scan_iso :: iso
  scan_stamp :: string

record RvCache =
  rv_at :: int
  rv_data :: "RainViewerMaps option"

definition RV_CACHE_initial :: RvCache where
  "RV_CACHE_initial = \<lparr>rv_at = 0, rv_data = None\<rparr>"

definition RV_TTL_MS :: int where
  "RV_TTL_MS = 60000"

definition fetchRainViewerMapsJson ::
  "int \<Rightarrow> reply \<Rightarrow> RvCache \<Rightarrow> (error + RainViewerMaps) \<times> RvCache \<times> nat" where
  "fetchRainViewerMapsJson now rep c =
     (case (if now - rv_at c < RV_TTL_MS then rv_data c else None) of
        Some d \<Rightarrow> (Inr d, c, 0)
      | None \<Rightarrow>
          (case rep of
             Rejected \<Rightarrow> (Inl FetchFailed, c, 1)
           | NotOk status \<Rightarrow> (Inl (HttpStatus status), c, 1)
           | Body d \<Rightarrow> (Inr d, \<lparr>rv_at = now, rv_data = Some d\<rparr>, 1)))"

text \<open>The filter of \<open>fetchRainViewerFrames\<close> has no length test.\<close>

fun typedEntry :: "rv_entry \<Rightarrow> bool" where
  "typedEntry e = (case (e_time e, e_path e) of (JNum _, JStr p) \<Rightarrow> True | _ \<Rightarrow> False)"

definition toScan :: "rv_entry \<Rightarrow> error + RadarScan" where
  "toScan f = (case toISOString (entryTime f * 1000) of
                 Inl e \<Rightarrow> Inl e
               | Inr s \<Rightarrow> Inr \<lparr>scan_iso = s, scan_stamp = entryPath f\<rparr>)"

definition fetchRainViewerFrames ::
  "int \<Rightarrow> reply \<Rightarrow> RvCache \<Rightarrow> (error + RadarScan list) \<times> RvCache \<times> nat" where
  "fetchRainViewerFrames now rep c =
     (case fetchRainViewerMapsJson now rep c of
        (Inl e, c', n) \<Rightarrow> (Inl e, c', n)
      | (Inr d, c', n) \<Rightarrow>
          (mapThrowing toScan (filter typedEntry (pastOf d @ nowcastOf d)), c', n))"

definition buildRainViewerTileTemplate :: "string \<Rightarrow> string \<Rightarrow> string" where
  "buildRainViewerTileTemplate hst pth =
     (let h = (if endsWith hst ''/'' then butlast hst else hst);
          p = (if startsWith pth ''/'' then pth else ''/'' @ pth)
      in h @ p @ tileSuffix)"

definition buildRainViewerTileUrlForFrame ::
  "int \<Rightarrow> reply \<Rightarrow> RvCache \<Rightarrow> string \<Rightarrow> (error + string) \<times> RvCache \<times> nat" where
  "buildRainViewerTileUrlForFrame now rep c framePath =
     (case fetchRainViewerMapsJson now rep c of
        (Inl e, c', n) \<Rightarrow> (Inl e, c', n)
      | (Inr d, c', n) \<Rightarrow>
          (case m_host d of
             None \<Rightarrow> (Inl MissingHost, c', n)
           | Some h \<Rightarrow>
               if h = [] then (Inl MissingHost, c', n)
               else (Inr (buildRainViewerTileTemplate h framePath), c', n)))"

section \<open>Nearest radar site\<close>

text \<open>
  \<open>app/lib/maps/resolveNearestRadar.ts\<close>. The registry \<open>NEXRAD_SITES\<close> is loaded from a
  JSON file and is a parameter here. A coordinate is a number; one that is not finite
  fails \<open>isFiniteNumber\<close>, as a \<open>null\<close> of the JSON file does.
\<close>

record NexradSite =
  site_id :: string
  site_name :: string
  site_state :: string
  site_county :: string
  site_lat :: number
  site_lon :: number
  elevFt :: "number option"
  utcOffsetHours :: "number option"
  country :: "string option"
  ownerType :: "string option"

record NearestRadarResult =
  res_site :: NexradSite
  res_distanceKm :: real
  res_distanceMi :: number
  res_bearingDeg :: number

record ResolveNearestRadarOptions =
  opt_maxDistanceKm :: "number option"
  opt_filter :: "(NexradSite \<Rightarrow> bool) option"

text \<open>
  \<open>haversineKm\<close>, \<open>bearingDeg\<close> and the product \<open>bestDistanceKm * 0.621371\<close> are
  evaluated in double precision with the engine's \<open>Math.sin\<close>, \<open>Math.cos\<close>,
  \<open>Math.sqrt\<close> and \<open>Math.atan2\<close>. Their rounding is not modelled: the three are taken
  as they come, as functions from finite doubles to numbers, and everything below holds
  whatever they return. (The result of \<open>haversineKm\<close> can be NaN: its value is
  \<open>6371 * 2 * Math.atan2(Math.sqrt(a), Math.sqrt(1 - a))\<close>, and a square root of a
  negative double is NaN.)
\<close>

record Float64 =
  fp_haversineKm :: "real \<Rightarrow> real \<Rightarrow> real \<Rightarrow> real \<Rightarrow> number"
  fp_bearingDeg :: "real \<Rightarrow> real \<Rightarrow> real \<Rightarrow> real \<Rightarrow> number"
  fp_toMiles :: "real \<Rightarrow> number"

text \<open>The comparison \<open>a < b\<close> of two numbers: false when either is NaN.\<close>

fun js_less :: "number \<Rightarrow> number \<Rightarrow> bool" where
  "js_less NaN _ = False"
| "js_less _ NaN = False"
| "js_less PosInf _ = False"
| "js_less _ NegInf = False"
| "js_less NegInf _ = True"
| "js_less _ PosInf = True"
| "js_less (Fin a) (Fin b) = (a < b)"

text \<open>
  The scan of \<open>resolveNearestRadar\<close> over the registry. \<open>best\<close> is the pair
  \<open>(bestSite, bestDistanceKm)\<close>, initially \<open>(null, Infinity)\<close>.
\<close>

fun scanSites ::
  "Float64 \<Rightarrow> (NexradSite \<Rightarrow> bool) option \<Rightarrow> real \<Rightarrow> real \<Rightarrow> NexradSite list
     \<Rightarrow> NexradSite option \<times> number \<Rightarrow> NexradSite option \<times> number" where
  "scanSites fp flt la lo [] best = best"
| "scanSites fp flt la lo (s # rest) best =
     (case (site_lat s, site_lon s) of
        (Fin slat, Fin slon) \<Rightarrow>
          if (case flt of None \<Rightarrow> False | Some f \<Rightarrow> \<not> f s) then scanSites fp flt la lo rest best
          else
            (let d = fp_haversineKm fp la lo slat slon
             in if js_less d (snd best) then scanSites fp flt la lo rest (Some s, d)
                else scanSites fp flt la lo rest best)
      | _ \<Rightarrow> scanSites fp flt la lo rest best)"

definition resolveNearestRadar ::
  "Float64 \<Rightarrow> NexradSite list \<Rightarrow> number \<Rightarrow> number \<Rightarrow> ResolveNearestRadarOptions
     \<Rightarrow> NearestRadarResult option" where
  "resolveNearestRadar fp sites plat plon opts =
     (case (plat, plon) of
        (Fin la, Fin lo) \<Rightarrow>
          if la < - 90 \<or> la > 90 \<or> lo < - 180 \<or> lo > 180 then None
          else
            (case scanSites fp (opt_filter opts) la lo sites (None, PosInf) of
               (Some bestSite, Fin bestDistanceKm) \<Rightarrow>
                 if (case opt_maxDistanceKm opts of
                       Some (Fin m) \<Rightarrow> bestDistanceKm > m
                     | _ \<Rightarrow> False)
                 then None
                 else
                   (case (site_lat bestSite, site_lon bestSite) of
                      (Fin blat, Fin blon) \<Rightarrow>
                        Some \<lparr>res_site = bestSite, res_distanceKm = bestDistanceKm,
                              res_distanceMi = fp_toMiles fp bestDistanceKm,
                              res_bearingDeg = fp_bearingDeg fp la lo blat blon\<rparr>
                    | _ \<Rightarrow> None)
             | _ \<Rightarrow> None)
      | _ \<Rightarrow> None)"

text \<open>
  The distance the scan computes for a site from a point (none, written NaN, for a site
  it passes over for its coordinates). A site is a candidate when that distance is a
  finite number; \<open>distanceTo\<close> is then its value.
\<close>

definition computedDistance :: "Float64 \<Rightarrow> real \<Rightarrow> real \<Rightarrow> NexradSite \<Rightarrow> number" where
  "computedDistance fp la lo s =
     (case (site_lat s, site_lon s) of
        (Fin slat, Fin slon) \<Rightarrow> fp_haversineKm fp la lo slat slon
      | _ \<Rightarrow> NaN)"

definition isCandidate :: "Float64 \<Rightarrow> real \<Rightarrow> real \<Rightarrow> NexradSite \<Rightarrow> bool" where
  "isCandidate fp la lo s = isFiniteNumber (computedDistance fp la lo s)"

definition distanceTo :: "Float64 \<Rightarrow> real \<Rightarrow> real \<Rightarrow> NexradSite \<Rightarrow> real" where
  "distanceTo fp la lo s = (case computedDistance fp la lo s of Fin d \<Rightarrow> d | _ \<Rightarrow> 0)"

definition noOptions :: ResolveNearestRadarOptions where
  "noOptions = \<lparr>opt_maxDistanceKm = None, opt_filter = None\<rparr>"

text \<open>
  The two sites of the specification's example, and the distances and bearings of the two
  from the example's point \<open>(33.0, -97.0)\<close> as the formulas give them in double
  precision, to three decimals.
\<close>

definition KTLX :: NexradSite where
  "KTLX = \<lparr>site_id = ''KTLX'', site_name = ''OKLAHOMA CITY'', site_state = ''OK'',
           site_county = ''OKLAHOMA'', site_lat = Fin 35.333, site_lon = Fin (- 97.278),
           elevFt = None, utcOffsetHours = None, country = None, ownerType = Some ''NEXRAD''\<rparr>"

definition KFWS :: NexradSite where
  "KFWS = \<lparr>site_id = ''KFWS'', site_name = ''DALLAS/FT WORTH'', site_state = ''TX'',
           site_county = ''TARRANT'', site_lat = Fin 32.573, site_lon = Fin (- 97.303),
           elevFt = None, utcOffsetHours = None, country = None, ownerType = Some ''NEXRAD''\<rparr>"

definition exampleFloat64 :: Float64 where
  "exampleFloat64 =
     \<lparr>fp_haversineKm = (\<lambda>la lo slat slon. if slat = 35.333 then Fin 260.675 else Fin 55.287),
      fp_bearingDeg = (\<lambda>la lo slat slon. if slat = 35.333 then Fin 354.447 else Fin 210.901),
      fp_toMiles = (\<lambda>km. Fin (km * 0.621371))\<rparr>"

section \<open>The crossfade of the maps screen\<close>

text \<open>
  \<open>app/(tabs)/maps.tsx\<close>, the memo \<open>radarOpacity\<close>. Its local \<open>configured\<close> is the
  opacity stored for the radar layer, the one the user sets (0.9 when there is none);
  \<open>radarOpacity\<close> holds it within \<open>[0.75, 1]\<close>, or within \<open>[0.55, 1]\<close> in nerdy mode,
  and is the opacity the crossfade works with.
\<close>

definition configured :: "MapRuntimeState \<Rightarrow> number" where
  "configured state =
     (case map_of (layers state) ''radar.reflectivity'' of
        None \<Rightarrow> Fin 0.9
      | Some e \<Rightarrow> (case opacity e of None \<Rightarrow> Fin 0.9 | Some x \<Rightarrow> x))"

definition radarOpacity :: "MapRuntimeState \<Rightarrow> number" where
  "radarOpacity state =
     (if \<not> nerdy state then Math_min (Fin 1) (Math_max (Fin 0.75) (configured state))
      else Math_min (Fin 1) (Math_max (Fin 0.55) (configured state)))"

text \<open>
  The component state of the crossfade: \<open>baseUrl\<close>, \<open>fadeUrl\<close>, \<open>fadeT\<close>, and what the
  running animation closed over (its target and its start time). A string is truthy when
  it is present and not empty.
\<close>

record Crossfade =
  baseUrl :: "string option"
  fadeUrl :: "string option"
  fadeT :: real
  animTarget :: "string option"
  animStart :: int

definition truthy :: "string option \<Rightarrow> bool" where
  "truthy u = (case u of None \<Rightarrow> False | Some s \<Rightarrow> s \<noteq> [])"

definition initialCrossfade :: Crossfade where
  "initialCrossfade =
     \<lparr>baseUrl = None, fadeUrl = None, fadeT = 1, animTarget = None, animStart = 0\<rparr>"

text \<open>
  The two effects that run when \<open>resolvedTargetUrl\<close> changes, at time \<open>now\<close>: the first
  fills an empty base, the second starts a fade unless the base the render saw is the
  target already.
\<close>

definition onResolvedTargetUrl :: "int \<Rightarrow> string option \<Rightarrow> Crossfade \<Rightarrow> Crossfade" where
  "onResolvedTargetUrl now resolvedTargetUrl cf =
     (if \<not> truthy resolvedTargetUrl then cf
      else
        (let cf1 = (if \<not> truthy (baseUrl cf) then cf\<lparr>baseUrl := resolvedTargetUrl\<rparr> else cf)
         in if baseUrl cf = resolvedTargetUrl then cf1
            else cf1\<lparr>fadeUrl := resolvedTargetUrl, fadeT := 0,
                     animTarget := resolvedTargetUrl, animStart := now\<rparr>))"

text \<open>One animation frame at time \<open>now\<close>: \<open>tick\<close>, with \<open>duration = 280\<close>.\<close>

definition tick :: "int \<Rightarrow> Crossfade \<Rightarrow> Crossfade" where
  "tick now cf =
     (let t = (real_of_int now - real_of_int (animStart cf)) / 280
      in if t \<ge> 1 then cf\<lparr>baseUrl := animTarget cf, fadeUrl := None, fadeT := 1\<rparr>
         else cf\<lparr>fadeT := t\<rparr>)"

definition baseOpacity :: "real \<Rightarrow> Crossfade \<Rightarrow> real" where
  "baseOpacity op cf = (if \<not> truthy (fadeUrl cf) then op else op * (1 - fadeT cf))"

definition fadeOpacity :: "real \<Rightarrow> Crossfade \<Rightarrow> real" where
  "fadeOpacity op cf = (if \<not> truthy (fadeUrl cf) then 0 else op * fadeT cf)"

section \<open>Timeline: full cycle\<close>

lemma js_rem_nonneg: "0 \<le> a \<Longrightarrow> 0 < b \<Longrightarrow> js_rem a b = a mod b"
  by (cases "a = 0") (simp_all add: js_rem_def)

lemma js_rem_five: "js_rem 1 5 = 1" "js_rem 2 5 = 2" "js_rem 3 5 = 3" "js_rem 4 5 = 4"
  "js_rem 5 5 = 0" "js_rem 6 5 = 1" "js_rem 7 5 = 2" "js_rem 8 5 = 3" "js_rem 9 5 = 4"
  by (simp_all add: js_rem_def)

lemma next_five:
  "nextFrameIndex 0 5 = 1" "nextFrameIndex 1 5 = 2" "nextFrameIndex 2 5 = 3"
  "nextFrameIndex 3 5 = 4" "nextFrameIndex 4 5 = 0"
  by (simp_all add: nextFrameIndex_def js_rem_five)

lemma prev_five:
  "prevFrameIndex 0 5 = 4" "prevFrameIndex 1 5 = 0" "prevFrameIndex 2 5 = 1"
  "prevFrameIndex 3 5 = 2" "prevFrameIndex 4 5 = 3"
  by (simp_all add: prevFrameIndex_def js_rem_five)

lemma timeline_next_five:
  "timeline_nextFrameIndex 0 5 = 1" "timeline_nextFrameIndex 1 5 = 2"
  "timeline_nextFrameIndex 2 5 = 3" "timeline_nextFrameIndex 3 5 = 4"
  "timeline_nextFrameIndex 4 5 = 0"
  by (simp_all add: timeline_nextFrameIndex_def clampFrameIndex_def js_rem_five)

lemma timeline_prev_five:
  "timeline_prevFrameIndex 0 5 = 4" "timeline_prevFrameIndex 1 5 = 0"
  "timeline_prevFrameIndex 2 5 = 1" "timeline_prevFrameIndex 3 5 = 2"
  "timeline_prevFrameIndex 4 5 = 3"
  by (simp_all add: timeline_prevFrameIndex_def clampFrameIndex_def js_rem_five)

lemma index_below_five: "0 \<le> i \<Longrightarrow> i < 5 \<Longrightarrow> i \<in> {0, 1, 2, 3, 4 :: int}"
  by auto

lemma funpow_five: "(f ^^ 5) x = f (f (f (f (f x))))"
  by (simp add: eval_nat_numeral funpow_swap1)

text \<open>
  C8. With five frames, stepping forward five times from a frame index (an index into the
  five frames, \<open>0 \<le> i < 5\<close>) returns to that index, and so does stepping back five
  times; with a frame count \<open>n \<le> 0\<close> both operations return 0. This holds for the
  helpers of the scrubber component and for the exported helpers of \<open>timeline.ts\<close>.
\<close>

theorem frame_cycle_identity:
  "(0 \<le> i \<and> i < 5 \<longrightarrow>
      ((\<lambda>j. nextFrameIndex j 5) ^^ 5) i = i \<and> ((\<lambda>j. prevFrameIndex j 5) ^^ 5) i = i \<and>
      ((\<lambda>j. timeline_nextFrameIndex j 5) ^^ 5) i = i \<and>
      ((\<lambda>j. timeline_prevFrameIndex j 5) ^^ 5) i = i) \<and>
   (n \<le> 0 \<longrightarrow>
      nextFrameIndex k n = 0 \<and> prevFrameIndex k n = 0 \<and>
      timeline_nextFrameIndex k n = 0 \<and> timeline_prevFrameIndex k n = 0)"
proof (intro conjI impI)
  assume "0 \<le> i \<and> i < 5"
  then have cases: "i \<in> {0, 1, 2, 3, 4}" using index_below_five by blast
  show "((\<lambda>j. nextFrameIndex j 5) ^^ 5) i = i"
    using cases by (auto simp: funpow_five next_five)
  show "((\<lambda>j. prevFrameIndex j 5) ^^ 5) i = i"
    using cases by (auto simp: funpow_five prev_five)
  show "((\<lambda>j. timeline_nextFrameIndex j 5) ^^ 5) i = i"
    using cases by (auto simp: funpow_five timeline_next_five)
  show "((\<lambda>j. timeline_prevFrameIndex j 5) ^^ 5) i = i"
    using cases by (auto simp: funpow_five timeline_prev_five)
qed (simp_all add: nextFrameIndex_def prevFrameIndex_def timeline_nextFrameIndex_def
       timeline_prevFrameIndex_def)

theorem frame_cycle_identity_witness:
  "((\<lambda>j. nextFrameIndex j 5) ^^ 5) 3 = 3 \<and> ((\<lambda>j. prevFrameIndex j 5) ^^ 5) 3 = 3 \<and>
   ((\<lambda>j. timeline_nextFrameIndex j 5) ^^ 5) 3 = 3 \<and>
   ((\<lambda>j. timeline_prevFrameIndex j 5) ^^ 5) 3 = 3 \<and>
   nextFrameIndex 2 0 = 0 \<and> prevFrameIndex 2 0 = 0 \<and>
   timeline_nextFrameIndex 2 0 = 0 \<and> timeline_prevFrameIndex 2 0 = 0"
  using frame_cycle_identity [of 3 0 2] by simp

text \<open>Outside the index range the helpers do not cycle back: from 7 the scrubber's
  \<open>nextFrameIndex\<close> ends at 2, and the clamping variant ends at 4.\<close>

lemma next_from_seven:
  "((\<lambda>j. nextFrameIndex j 5) ^^ 5) 7 = 2 \<and> ((\<lambda>j. timeline_nextFrameIndex j 5) ^^ 5) 7 = 4"
  by (simp add: funpow_five nextFrameIndex_def timeline_nextFrameIndex_def
        clampFrameIndex_def js_rem_five)

section \<open>Reducer: association-list lemmas\<close>

lemma map_of_Some_key: "map_of al k = Some v \<Longrightarrow> k \<in> fst ` set al"
  by (metis map_of_eq_None_iff option.distinct(1))

lemma update_present_keys: "map_of al k = Some v \<Longrightarrow> map fst (AList.update k w al) = map fst al"
  by (simp add: update_keys map_of_Some_key)

lemma update_absent: "k \<notin> fst ` set al \<Longrightarrow> AList.update k w al = al @ [(k, w)]"
  by (induction al) auto

lemma keys_applyPresetEnabled: "map fst (applyPresetEnabled ids ls) = map fst ls"
  unfolding applyPresetEnabled_def
  by (induction ids arbitrary: ls) (auto simp: update_present_keys split: option.splits)

lemma keys_applyPresetOpacity: "map fst (applyPresetOpacity ops ls) = map fst ls"
  unfolding applyPresetOpacity_def
  by (induction ops arbitrary: ls) (auto simp: update_present_keys split: option.splits)

lemma keys_carryOpacity: "map fst (carryOpacity old nxt) = map fst nxt"
  unfolding carryOpacity_def
  by (induction old arbitrary: nxt) (auto simp: update_present_keys split: option.splits)

lemma map_of_applyPresetEnabled:
  "map_of (applyPresetEnabled ids ls) k =
     map_option (\<lambda>e. if k \<in> set ids then e\<lparr>enabled := Some True\<rparr> else e) (map_of ls k)"
  unfolding applyPresetEnabled_def
proof (induction ids arbitrary: ls)
  case Nil
  then show ?case by (simp add: option.map_ident)
next
  case (Cons a ids)
  show ?case
    by (cases "map_of ls a") (auto simp: Cons.IH update_conv' map_option_case split: option.splits)
qed

lemma enabled_applyPresetOpacity:
  "map_option enabled (map_of (applyPresetOpacity ops ls) k) = map_option enabled (map_of ls k)"
  unfolding applyPresetOpacity_def
proof (induction ops arbitrary: ls)
  case Nil
  then show ?case by simp
next
  case (Cons a ops)
  obtain j op where a: "a = (j, op)" by (cases a)
  show ?case
    by (cases "map_of ls j") (auto simp: a Cons.IH update_conv')
qed

lemma enabled_carryOpacity:
  "map_option enabled (map_of (carryOpacity old nxt) k) = map_option enabled (map_of nxt k)"
  unfolding carryOpacity_def
proof (induction old arbitrary: nxt)
  case Nil
  then show ?case by simp
next
  case (Cons a old)
  obtain j st where a: "a = (j, st)" by (cases a)
  show ?case
    by (cases "map_of nxt j") (auto simp: a Cons.IH update_conv')
qed

lemma opacity_carryOpacity:
  "distinct (map fst old) \<Longrightarrow>
   map_option opacity (map_of (carryOpacity old nxt) k) =
     (case map_of nxt k of
        None \<Rightarrow> None
      | Some e \<Rightarrow> Some (case map_of old k of None \<Rightarrow> opacity e | Some e0 \<Rightarrow> opacity e0))"
  unfolding carryOpacity_def
proof (induction old arbitrary: nxt)
  case Nil
  then show ?case by (simp split: option.splits)
next
  case (Cons a old)
  obtain j st where a: "a = (j, st)" by (cases a)
  from Cons.prems have d: "distinct (map fst old)" and j: "map_of old j = None"
    by (auto simp: a map_of_eq_None_iff)
  show ?case
    using j by (cases "map_of nxt j") (auto simp: a Cons.IH [OF d] update_conv' split: option.splits)
qed

lemma keys_fold_update:
  "fst ` set (fold (\<lambda>(k, v) obj. AList.update k v obj) es acc) = fst ` set acc \<union> fst ` set es"
proof (induction es arbitrary: acc)
  case Nil
  then show ?case by simp
next
  case (Cons a es)
  obtain j w where a: "a = (j, w)" by (cases a)
  have "fst ` set (fold (\<lambda>(k, v) obj. AList.update k v obj) es (AList.update j w acc)) =
          fst ` set (AList.update j w acc) \<union> fst ` set es"
    by (rule Cons.IH)
  also have "\<dots> = ({j} \<union> fst ` set acc) \<union> fst ` set es"
    by (simp only: dom_update)
  finally show ?case by (simp add: a Un_commute Un_left_commute insert_commute)
qed

lemma distinct_fold_update:
  "distinct (map fst acc) \<Longrightarrow> distinct (map fst (fold (\<lambda>(k, v) obj. AList.update k v obj) es acc))"
  by (induction es arbitrary: acc) (auto simp: distinct_update)

lemma values_fold_update:
  "map_of (fold (\<lambda>(k, v) obj. AList.update k v obj) es acc) k = Some v \<Longrightarrow>
   (\<And>j w. map_of acc j = Some w \<Longrightarrow> P w) \<Longrightarrow> (\<And>j w. (j, w) \<in> set es \<Longrightarrow> P w) \<Longrightarrow> P v"
proof (induction es arbitrary: acc)
  case Nil
  then show ?case by simp
next
  case (Cons a es)
  obtain j w where a: "a = (j, w)" by (cases a)
  show ?case
  proof (rule Cons.IH [of "AList.update j w acc"])
    show "map_of (fold (\<lambda>(k, v). AList.update k v) es (AList.update j w acc)) k = Some v"
      using Cons.prems(1) by (simp add: a)
  next
    fix i x assume "map_of (AList.update j w acc) i = Some x"
    then show "P x"
      using Cons.prems(2,3) by (auto simp: a update_conv' split: if_splits)
  next
    fix i x assume "(i, x) \<in> set es"
    then show "P x" using Cons.prems(3) by auto
  qed
qed

lemma keys_buildDefaultLayers: "fst ` set (buildDefaultLayers cat) = layerId ` set cat"
  by (simp add: buildDefaultLayers_def Object_fromEntries_def keys_fold_update image_image)

lemma distinct_buildDefaultLayers: "distinct (map fst (buildDefaultLayers cat))"
  by (simp add: buildDefaultLayers_def Object_fromEntries_def distinct_fold_update)

lemma enabled_buildDefaultLayers:
  "map_of (buildDefaultLayers cat) k = Some e \<Longrightarrow> enabled e = Some False"
  unfolding buildDefaultLayers_def Object_fromEntries_def
  by (erule values_fold_update) auto

section \<open>Reducer: initial state and view switch\<close>

lemma layers_createInitialMapState:
  "layers (createInitialMapState cat views opts) =
     (case find (\<lambda>v. view_id v = (case opt_viewId opts of None \<Rightarrow> Radar | Some v \<Rightarrow> v)) views of
        None \<Rightarrow> buildDefaultLayers cat
      | Some view \<Rightarrow>
          (case presetLayerOpacity view of
             None \<Rightarrow> applyPresetEnabled (presetEnabledLayers view) (buildDefaultLayers cat)
           | Some ops \<Rightarrow>
               applyPresetOpacity ops
                 (applyPresetEnabled (presetEnabledLayers view) (buildDefaultLayers cat))))"
  by (simp add: createInitialMapState_def Let_def split: option.splits)

lemma keys_createInitialMapState:
  "map fst (layers (createInitialMapState cat views opts)) = map fst (buildDefaultLayers cat)"
  by (simp add: layers_createInitialMapState keys_applyPresetEnabled keys_applyPresetOpacity
        split: option.splits)

lemma enabled_createInitialMapState:
  assumes "map_of (layers (createInitialMapState cat views opts)) k = Some e"
  shows "enabled e =
           Some (case find (\<lambda>v. view_id v = (case opt_viewId opts of None \<Rightarrow> Radar | Some v \<Rightarrow> v)) views of
                   None \<Rightarrow> False
                 | Some view \<Rightarrow> k \<in> set (presetEnabledLayers view))"
proof (cases "find (\<lambda>v. view_id v = (case opt_viewId opts of None \<Rightarrow> Radar | Some v \<Rightarrow> v)) views")
  case None
  then show ?thesis
    using assms by (simp add: layers_createInitialMapState enabled_buildDefaultLayers)
next
  case (Some view)
  let ?ls1 = "applyPresetEnabled (presetEnabledLayers view) (buildDefaultLayers cat)"
  have "map_option enabled (map_of (layers (createInitialMapState cat views opts)) k) =
          map_option enabled (map_of ?ls1 k)"
    by (simp add: layers_createInitialMapState Some enabled_applyPresetOpacity split: option.splits)
  then have "map_option enabled (map_of ?ls1 k) = Some (enabled e)"
    using assms by simp
  then obtain e1 where e1: "map_of ?ls1 k = Some e1" and en: "enabled e1 = enabled e"
    by auto
  from e1 obtain e0 where e0: "map_of (buildDefaultLayers cat) k = Some e0"
    and e1': "e1 = (if k \<in> set (presetEnabledLayers view) then e0\<lparr>enabled := Some True\<rparr> else e0)"
    by (auto simp: map_of_applyPresetEnabled)
  have "enabled e0 = Some False" using e0 by (rule enabled_buildDefaultLayers)
  then show ?thesis using en e1' by (auto simp: Some split: if_splits)
qed

lemma layers_SET_VIEW:
  "layers (mapReducer cat views s (SET_VIEW v)) =
     carryOpacity (layers s)
       (layers (createInitialMapState cat views
          \<lparr>opt_viewId = Some v, opt_nerdy = Some (nerdy s), opt_viewport = Some (viewport s)\<rparr>))"
  by (simp add: Let_def)

lemma keys_SET_VIEW:
  "map fst (layers (mapReducer cat views s (SET_VIEW v))) = map fst (buildDefaultLayers cat)"
  by (simp only: layers_SET_VIEW keys_carryOpacity keys_createInitialMapState)

lemma dom_SET_VIEW:
  "fst ` set (layers (mapReducer cat views s (SET_VIEW v))) = layerId ` set cat"
  using keys_SET_VIEW [of cat views s v] keys_buildDefaultLayers [of cat]
  by (metis set_map)

lemma distinct_SET_VIEW: "distinct (map fst (layers (mapReducer cat views s (SET_VIEW v))))"
  by (simp only: keys_SET_VIEW distinct_buildDefaultLayers)

lemma enabled_SET_VIEW:
  assumes "map_of (layers (mapReducer cat views s (SET_VIEW v))) k = Some e"
  shows "enabled e =
           Some (case find (\<lambda>w. view_id w = v) views of
                   None \<Rightarrow> False
                 | Some view \<Rightarrow> k \<in> set (presetEnabledLayers view))"
proof -
  let ?init = "createInitialMapState cat views
          \<lparr>opt_viewId = Some v, opt_nerdy = Some (nerdy s), opt_viewport = Some (viewport s)\<rparr>"
  have "map_of (carryOpacity (layers s) (layers ?init)) k = Some e"
    using assms by (simp only: layers_SET_VIEW)
  then have "map_option enabled (map_of (layers ?init) k) = Some (enabled e)"
    using enabled_carryOpacity [of "layers s" "layers ?init" k] by simp
  then obtain e1 where "map_of (layers ?init) k = Some e1" and "enabled e1 = enabled e"
    by (cases "map_of (layers ?init) k") auto
  then show ?thesis
    using enabled_createInitialMapState [of cat views _ k e1] by fastforce
qed

lemma opacity_SET_VIEW:
  assumes "distinct (map fst (layers s))" and "map_of (layers s) k = Some e0"
    and "k \<in> layerId ` set cat"
  shows "\<exists>e. map_of (layers (mapReducer cat views s (SET_VIEW v))) k = Some e \<and>
             opacity e = opacity e0"
proof -
  let ?init = "createInitialMapState cat views
          \<lparr>opt_viewId = Some v, opt_nerdy = Some (nerdy s), opt_viewport = Some (viewport s)\<rparr>"
  have "k \<in> fst ` set (layers ?init)"
    using assms(3) keys_createInitialMapState [of cat views] keys_buildDefaultLayers [of cat]
    by (metis set_map)
  then obtain e1 where e1: "map_of (layers ?init) k = Some e1"
    by (metis map_of_eq_None_iff not_Some_eq)
  have "map_option opacity (map_of (carryOpacity (layers s) (layers ?init)) k) = Some (opacity e0)"
    using opacity_carryOpacity [OF assms(1), of "layers ?init" k] e1 assms(2) by simp
  then show ?thesis
    by (auto simp: layers_SET_VIEW simp del: mapReducer.simps)
qed

text \<open>
  C9. Let a catalog layer have some opacity in a state \<open>s\<close> (for instance 0.3, set by the
  user under view A). After \<open>SET_VIEW B\<close> followed by \<open>SET_VIEW A\<close> the layer has that same
  opacity, whatever the catalog default or the presets of A and B say, and each of the two
  \<open>SET_VIEW\<close> transitions hands \<open>radarTime\<close> over unchanged.
\<close>

theorem set_view_keeps_customized_opacity:
  assumes "distinct (map fst (layers s))" and "k \<in> layerId ` set cat"
    and "map_of (layers s) k = Some e0"
  shows "(\<exists>e. map_of (layers (mapReducer cat views (mapReducer cat views s (SET_VIEW B)) (SET_VIEW A))) k
               = Some e \<and> opacity e = opacity e0) \<and>
         radarTime (mapReducer cat views s (SET_VIEW B)) = radarTime s \<and>
         radarTime (mapReducer cat views (mapReducer cat views s (SET_VIEW B)) (SET_VIEW A))
           = radarTime s"
proof -
  obtain e1 where e1: "map_of (layers (mapReducer cat views s (SET_VIEW B))) k = Some e1"
    and o1: "opacity e1 = opacity e0"
    using opacity_SET_VIEW [OF assms(1) assms(3) assms(2)] by blast
  have "\<exists>e. map_of (layers (mapReducer cat views (mapReducer cat views s (SET_VIEW B)) (SET_VIEW A))) k
               = Some e \<and> opacity e = opacity e1"
    using distinct_SET_VIEW e1 assms(2) by (rule opacity_SET_VIEW)
  then show ?thesis using o1 by (simp add: Let_def)
qed

text \<open>
  C10. After \<open>SET_VIEW v\<close> the layers map has exactly the catalog's ids, and the enabled flag
  of each is decided by the target view alone: it is true exactly when the id is listed in
  that view's \<open>presetEnabledLayers\<close> (false for all when no view has id \<open>v\<close>). In
  particular a layer the user had enabled that is not in the preset is disabled. The opacity
  is what the prior state held for that id.
\<close>

theorem set_view_rebuilds_enabled:
  "(k \<in> layerId ` set cat \<longrightarrow>
      (\<exists>e. map_of (layers (mapReducer cat views s (SET_VIEW v))) k = Some e \<and>
           enabled e = Some (case find (\<lambda>w. view_id w = v) views of
                               None \<Rightarrow> False
                             | Some view \<Rightarrow> k \<in> set (presetEnabledLayers view)) \<and>
           (\<forall>e0. distinct (map fst (layers s)) \<and> map_of (layers s) k = Some e0
                   \<longrightarrow> opacity e = opacity e0))) \<and>
   (k \<notin> layerId ` set cat \<longrightarrow> map_of (layers (mapReducer cat views s (SET_VIEW v))) k = None)"
proof (intro conjI impI)
  assume k: "k \<in> layerId ` set cat"
  then have "k \<in> fst ` set (layers (mapReducer cat views s (SET_VIEW v)))"
    by (simp add: dom_SET_VIEW del: mapReducer.simps)
  then obtain e where e: "map_of (layers (mapReducer cat views s (SET_VIEW v))) k = Some e"
    by (metis map_of_eq_None_iff not_Some_eq)
  have "\<forall>e0. distinct (map fst (layers s)) \<and> map_of (layers s) k = Some e0
                   \<longrightarrow> opacity e = opacity e0"
    using opacity_SET_VIEW [of s k _ cat views v] k e by fastforce
  then show "\<exists>e. map_of (layers (mapReducer cat views s (SET_VIEW v))) k = Some e \<and>
           enabled e = Some (case find (\<lambda>w. view_id w = v) views of
                               None \<Rightarrow> False
                             | Some view \<Rightarrow> k \<in> set (presetEnabledLayers view)) \<and>
           (\<forall>e0. distinct (map fst (layers s)) \<and> map_of (layers s) k = Some e0
                   \<longrightarrow> opacity e = opacity e0)"
    using e enabled_SET_VIEW [OF e] by blast
next
  assume "k \<notin> layerId ` set cat"
  then have "k \<notin> fst ` set (layers (mapReducer cat views s (SET_VIEW v)))"
    by (simp add: dom_SET_VIEW del: mapReducer.simps)
  then show "map_of (layers (mapReducer cat views s (SET_VIEW v))) k = None"
    by (rule map_of_eq_None_iff [THEN iffD2])
qed

section \<open>Reducer: concrete states\<close>

lemma layers_screenInitialState:
  "layers screenInitialState =
     [(''radar.reflectivity'', \<lparr>enabled = Some True, opacity = Some (Fin 0.9)\<rparr>),
      (''wildfire.smoke'', \<lparr>enabled = Some False, opacity = Some (Fin 0.55)\<rparr>),
      (''wildfire.perimeters'', \<lparr>enabled = Some False, opacity = Some (Fin 0.85)\<rparr>),
      (''wildfire.hotspots'', \<lparr>enabled = Some False, opacity = Some (Fin 0.9)\<rparr>),
      (''lightning.strikes'', \<lparr>enabled = Some False, opacity = Some (Fin 0.95)\<rparr>),
      (''alerts.polygons'', \<lparr>enabled = Some False, opacity = Some (Fin 0.95)\<rparr>)]"
  by (simp add: screenInitialState_def layers_createInitialMapState MAP_VIEWS_def LAYER_CATALOG_def
        buildDefaultLayers_def Object_fromEntries_def applyPresetEnabled_def)

lemma catalog_ids:
  "layerId ` set LAYER_CATALOG =
     {''radar.reflectivity'', ''wildfire.smoke'', ''wildfire.perimeters'', ''wildfire.hotspots'',
      ''lightning.strikes'', ''alerts.polygons''}"
  by (simp add: LAYER_CATALOG_def)

section \<open>Reducer: layer actions on an id that is not in the map\<close>

text \<open>
  C1 (as stated): for an id absent from \<open>s.layers\<close> the two layer actions leave the
  layers map unchanged. The reducer has no such guard: from the screen's initial state,
  \<open>SET_LAYER_OPACITY\<close> on \<open>nonexistent-id\<close> adds that key.
\<close>

theorem set_layer_opacity_absent_counterexample:
  "''nonexistent-id'' \<notin> fst ` set (layers screenInitialState) \<and>
   layers (mapReducer LAYER_CATALOG MAP_VIEWS screenInitialState
             (SET_LAYER_OPACITY ''nonexistent-id'' (Fin 0.5)))
     \<noteq> layers screenInitialState \<and>
   map_of (layers (mapReducer LAYER_CATALOG MAP_VIEWS screenInitialState
             (SET_LAYER_OPACITY ''nonexistent-id'' (Fin 0.5)))) ''nonexistent-id''
     = Some \<lparr>enabled = None, opacity = Some (Fin 0.5)\<rparr>"
  by (simp add: layers_screenInitialState spreadLayer_def clamp01_def)

text \<open>
  C1 (amended). \<open>SET_LAYER_OPACITY\<close> and \<open>SET_LAYER_ENABLED\<close> never change the entry of
  another layer id. For an id present in \<open>s.layers\<close> the keys stay as they are and only
  the addressed field of that entry is replaced (the opacity by its clamped value). For an
  id absent from \<open>s.layers\<close> the reducer appends one entry for it, holding only the
  assigned field.
\<close>

theorem set_layer_frame:
  "(j \<noteq> k \<longrightarrow>
      map_of (layers (mapReducer cat views s (SET_LAYER_OPACITY k op))) j = map_of (layers s) j \<and>
      map_of (layers (mapReducer cat views s (SET_LAYER_ENABLED k b))) j = map_of (layers s) j) \<and>
   (map_of (layers s) k = Some e \<longrightarrow>
      map fst (layers (mapReducer cat views s (SET_LAYER_OPACITY k op))) = map fst (layers s) \<and>
      map fst (layers (mapReducer cat views s (SET_LAYER_ENABLED k b))) = map fst (layers s) \<and>
      map_of (layers (mapReducer cat views s (SET_LAYER_OPACITY k op))) k
        = Some (e\<lparr>opacity := Some (clamp01 op)\<rparr>) \<and>
      map_of (layers (mapReducer cat views s (SET_LAYER_ENABLED k b))) k
        = Some (e\<lparr>enabled := Some b\<rparr>)) \<and>
   (k \<notin> fst ` set (layers s) \<longrightarrow>
      layers (mapReducer cat views s (SET_LAYER_OPACITY k op))
        = layers s @ [(k, \<lparr>enabled = None, opacity = Some (clamp01 op)\<rparr>)] \<and>
      layers (mapReducer cat views s (SET_LAYER_ENABLED k b))
        = layers s @ [(k, \<lparr>enabled = Some b, opacity = None\<rparr>)])"
proof (intro conjI impI)
  assume "k \<notin> fst ` set (layers s)"
  then have absent: "map_of (layers s) k = None"
    by (rule map_of_eq_None_iff [THEN iffD2])
  show "layers (mapReducer cat views s (SET_LAYER_OPACITY k op))
        = layers s @ [(k, \<lparr>enabled = None, opacity = Some (clamp01 op)\<rparr>)]"
    using \<open>k \<notin> fst ` set (layers s)\<close> by (simp add: absent spreadLayer_def update_absent)
  show "layers (mapReducer cat views s (SET_LAYER_ENABLED k b))
        = layers s @ [(k, \<lparr>enabled = Some b, opacity = None\<rparr>)]"
    using \<open>k \<notin> fst ` set (layers s)\<close> by (simp add: absent spreadLayer_def update_absent)
qed (simp_all add: update_conv' update_present_keys spreadLayer_def)

theorem set_layer_frame_witness:
  "map fst (layers (mapReducer LAYER_CATALOG MAP_VIEWS screenInitialState
                      (SET_LAYER_OPACITY ''wildfire.smoke'' (Fin 2))))
     = map fst (layers screenInitialState) \<and>
   map_of (layers (mapReducer LAYER_CATALOG MAP_VIEWS screenInitialState
                      (SET_LAYER_OPACITY ''wildfire.smoke'' (Fin 2)))) ''wildfire.smoke''
     = Some \<lparr>enabled = Some False, opacity = Some (Fin 1)\<rparr> \<and>
   map_of (layers (mapReducer LAYER_CATALOG MAP_VIEWS screenInitialState
                      (SET_LAYER_OPACITY ''wildfire.smoke'' (Fin 2)))) ''radar.reflectivity''
     = Some \<lparr>enabled = Some True, opacity = Some (Fin 0.9)\<rparr> \<and>
   map_of (layers (mapReducer LAYER_CATALOG MAP_VIEWS screenInitialState
                      (SET_LAYER_ENABLED ''wildfire.smoke'' True))) ''wildfire.smoke''
     = Some \<lparr>enabled = Some True, opacity = Some (Fin 0.55)\<rparr> \<and>
   layers (mapReducer LAYER_CATALOG MAP_VIEWS screenInitialState
             (SET_LAYER_ENABLED ''no.such.layer'' True))
     = layers screenInitialState @ [(''no.such.layer'', \<lparr>enabled = Some True, opacity = None\<rparr>)]"
proof -
  have present: "map_of (layers screenInitialState) ''wildfire.smoke''
                   = Some \<lparr>enabled = Some False, opacity = Some (Fin 0.55)\<rparr>"
    by (simp add: layers_screenInitialState)
  have other: "''radar.reflectivity'' \<noteq> ''wildfire.smoke''"
    by simp
  have absent: "''no.such.layer'' \<notin> fst ` set (layers screenInitialState)"
    by (simp add: layers_screenInitialState)
  have radar: "map_of (layers screenInitialState) ''radar.reflectivity''
                   = Some \<lparr>enabled = Some True, opacity = Some (Fin 0.9)\<rparr>"
    by (simp add: layers_screenInitialState)
  have c: "clamp01 (Fin 2) = Fin 1"
    by (simp add: clamp01_def)
  show ?thesis
    using set_layer_frame [of "''radar.reflectivity''" "''wildfire.smoke''" LAYER_CATALOG MAP_VIEWS
            screenInitialState "Fin 2" True "\<lparr>enabled = Some False, opacity = Some (Fin 0.55)\<rparr>"]
          set_layer_frame [of "''radar.reflectivity''" "''no.such.layer''" LAYER_CATALOG MAP_VIEWS
            screenInitialState "Fin 2" True "\<lparr>enabled = Some False, opacity = Some (Fin 0.55)\<rparr>"]
          present other absent radar c
    by (simp del: mapReducer.simps)
qed

lemma layers_radarDimmedState:
  "layers radarDimmedState =
     [(''radar.reflectivity'', \<lparr>enabled = Some True, opacity = Some (Fin 0.3)\<rparr>),
      (''wildfire.smoke'', \<lparr>enabled = Some False, opacity = Some (Fin 0.55)\<rparr>),
      (''wildfire.perimeters'', \<lparr>enabled = Some False, opacity = Some (Fin 0.85)\<rparr>),
      (''wildfire.hotspots'', \<lparr>enabled = Some False, opacity = Some (Fin 0.9)\<rparr>),
      (''lightning.strikes'', \<lparr>enabled = Some False, opacity = Some (Fin 0.95)\<rparr>),
      (''alerts.polygons'', \<lparr>enabled = Some False, opacity = Some (Fin 0.95)\<rparr>)]"
  by (simp add: radarDimmedState_def layers_screenInitialState spreadLayer_def clamp01_def)

lemma layers_hotspotsOnState:
  "layers hotspotsOnState =
     [(''radar.reflectivity'', \<lparr>enabled = Some True, opacity = Some (Fin 0.9)\<rparr>),
      (''wildfire.smoke'', \<lparr>enabled = Some False, opacity = Some (Fin 0.55)\<rparr>),
      (''wildfire.perimeters'', \<lparr>enabled = Some False, opacity = Some (Fin 0.85)\<rparr>),
      (''wildfire.hotspots'', \<lparr>enabled = Some True, opacity = Some (Fin 0.9)\<rparr>),
      (''lightning.strikes'', \<lparr>enabled = Some False, opacity = Some (Fin 0.95)\<rparr>),
      (''alerts.polygons'', \<lparr>enabled = Some False, opacity = Some (Fin 0.95)\<rparr>)]"
  by (simp add: hotspotsOnState_def layers_screenInitialState spreadLayer_def)

lemma find_wildfire_view:
  "find (\<lambda>w. view_id w = Wildfire) MAP_VIEWS =
     Some \<lparr>view_id = Wildfire,
      presetEnabledLayers = [''radar.reflectivity'', ''wildfire.smoke'', ''wildfire.perimeters''],
      presetLayerOpacity = Some [(''radar.reflectivity'', Fin 0.85), (''wildfire.smoke'', Fin 0.55),
                                 (''wildfire.perimeters'', Fin 0.9)],
      timelineDriverLayer = Some ''radar.reflectivity''\<rparr>"
  by (simp add: MAP_VIEWS_def)

section \<open>Reducer: view switches from concrete states\<close>

text \<open>
  The radar layer dimmed to 0.3 under the radar view, then the wildfire view (whose preset
  says 0.85) and back to the radar view (catalog default 0.9): the opacity is still 0.3.
\<close>

theorem set_view_keeps_customized_opacity_witness:
  "distinct (map fst (layers radarDimmedState)) \<and>
   ''radar.reflectivity'' \<in> layerId ` set LAYER_CATALOG \<and>
   map_of (layers radarDimmedState) ''radar.reflectivity''
     = Some \<lparr>enabled = Some True, opacity = Some (Fin 0.3)\<rparr> \<and>
   map_option opacity
     (map_of (layers (mapReducer LAYER_CATALOG MAP_VIEWS
                        (mapReducer LAYER_CATALOG MAP_VIEWS radarDimmedState (SET_VIEW Wildfire))
                        (SET_VIEW Radar))) ''radar.reflectivity'')
     = Some (Some (Fin 0.3)) \<and>
   radarTime (mapReducer LAYER_CATALOG MAP_VIEWS
                (mapReducer LAYER_CATALOG MAP_VIEWS radarDimmedState (SET_VIEW Wildfire))
                (SET_VIEW Radar))
     = radarTime radarDimmedState"
proof -
  have d: "distinct (map fst (layers radarDimmedState))"
    by (simp add: layers_radarDimmedState)
  have c: "''radar.reflectivity'' \<in> layerId ` set LAYER_CATALOG"
    by (simp add: catalog_ids)
  have e: "map_of (layers radarDimmedState) ''radar.reflectivity''
             = Some \<lparr>enabled = Some True, opacity = Some (Fin 0.3)\<rparr>"
    by (simp add: layers_radarDimmedState)
  show ?thesis
    using set_view_keeps_customized_opacity [OF d c e, of MAP_VIEWS Wildfire Radar] d c e
    by (auto simp del: mapReducer.simps)
qed

text \<open>
  Hotspots switched on by hand, then the wildfire view, whose preset leaves hotspots out:
  the layer is disabled again and keeps its opacity.
\<close>

theorem set_view_rebuilds_enabled_witness:
  "map_option enabled (map_of (layers hotspotsOnState) ''wildfire.hotspots'') = Some (Some True) \<and>
   map_option enabled
     (map_of (layers (mapReducer LAYER_CATALOG MAP_VIEWS hotspotsOnState (SET_VIEW Wildfire)))
        ''wildfire.hotspots'') = Some (Some False) \<and>
   map_option opacity
     (map_of (layers (mapReducer LAYER_CATALOG MAP_VIEWS hotspotsOnState (SET_VIEW Wildfire)))
        ''wildfire.hotspots'') = Some (Some (Fin 0.9)) \<and>
   map_of (layers (mapReducer LAYER_CATALOG MAP_VIEWS hotspotsOnState (SET_VIEW Wildfire)))
     ''no.such.layer'' = None"
proof -
  have d: "distinct (map fst (layers hotspotsOnState))"
    by (simp add: layers_hotspotsOnState)
  have c: "''wildfire.hotspots'' \<in> layerId ` set LAYER_CATALOG"
    by (simp add: catalog_ids)
  have n: "''no.such.layer'' \<notin> layerId ` set LAYER_CATALOG"
    by (simp add: catalog_ids)
  have e: "map_of (layers hotspotsOnState) ''wildfire.hotspots''
             = Some \<lparr>enabled = Some True, opacity = Some (Fin 0.9)\<rparr>"
    by (simp add: layers_hotspotsOnState)
  show ?thesis
    using set_view_rebuilds_enabled [of "''wildfire.hotspots''" LAYER_CATALOG MAP_VIEWS
            hotspotsOnState Wildfire]
          set_view_rebuilds_enabled [of "''no.such.layer''" LAYER_CATALOG MAP_VIEWS
            hotspotsOnState Wildfire]
          d c n e
    by (auto simp: find_wildfire_view simp del: mapReducer.simps)
qed

section \<open>Tile templates\<close>

lemma startsWith_iff: "startsWith s p \<longleftrightarrow> (\<exists>v. s = p @ v)"
  by (induction s p rule: startsWith.induct) auto

lemma str_includes_iff: "str_includes s p \<longleftrightarrow> (\<exists>u v. s = u @ p @ v)"
proof (induction s)
  case Nil
  then show ?case by simp
next
  case (Cons a s)
  have "(\<exists>u v. a # s = u @ p @ v) \<longleftrightarrow> (\<exists>v. a # s = p @ v) \<or> (\<exists>u v. s = u @ p @ v)"
  proof
    assume "\<exists>u v. a # s = u @ p @ v"
    then obtain u v where uv: "a # s = u @ p @ v" by blast
    show "(\<exists>v. a # s = p @ v) \<or> (\<exists>u v. s = u @ p @ v)"
    proof (cases u)
      case Nil
      then show ?thesis using uv by auto
    next
      case (Cons b u')
      then show ?thesis using uv by auto
    qed
  next
    assume "(\<exists>v. a # s = p @ v) \<or> (\<exists>u v. s = u @ p @ v)"
    then show "\<exists>u v. a # s = u @ p @ v"
    proof
      assume "\<exists>v. a # s = p @ v"
      then show ?thesis by (metis append_Nil)
    next
      assume "\<exists>u v. s = u @ p @ v"
      then show ?thesis by (metis append_Cons)
    qed
  qed
  then show ?case
    using Cons.IH by (simp only: str_includes.simps startsWith_iff)
qed

lemma endsWith_slash: "endsWith h ''/'' \<longleftrightarrow> (\<exists>u. h = u @ ''/'')"
proof -
  have "endsWith h ''/'' \<longleftrightarrow> (\<exists>v. rev h = ''/'' @ v)"
    by (simp add: endsWith_def startsWith_iff)
  also have "\<dots> \<longleftrightarrow> (\<exists>u. h = u @ ''/'')"
  proof
    assume "\<exists>v. rev h = ''/'' @ v"
    then obtain v where "rev h = ''/'' @ v" by blast
    then have "h = rev v @ ''/''" by (simp add: rev_swap)
    then show "\<exists>u. h = u @ ''/''" by blast
  next
    assume "\<exists>u. h = u @ ''/''"
    then obtain u where "h = u @ ''/''" by blast
    then have "rev h = ''/'' @ rev u" by simp
    then show "\<exists>v. rev h = ''/'' @ v" by blast
  qed
  finally show ?thesis .
qed

text \<open>
  C5 (as stated): a path that already contains the three placeholders is returned as host
  + path with no suffix. That holds of the provider's \<open>tileTemplateFor\<close> but not of
  \<open>buildRainViewerTileTemplate\<close>, the builder the maps screen reaches through
  \<open>buildRainViewerTileUrlForFrame\<close>: it appends the suffix to such a path too.
\<close>

theorem tile_suffix_appended_despite_placeholders_counterexample:
  "str_includes ''/v2/radar/17/256/{z}/{x}/{y}/2/1_1.png'' ''{z}'' \<and>
   str_includes ''/v2/radar/17/256/{z}/{x}/{y}/2/1_1.png'' ''{x}'' \<and>
   str_includes ''/v2/radar/17/256/{z}/{x}/{y}/2/1_1.png'' ''{y}'' \<and>
   buildRainViewerTileTemplate ''https://tilecache.rainviewer.com''
       ''/v2/radar/17/256/{z}/{x}/{y}/2/1_1.png''
     = ''https://tilecache.rainviewer.com/v2/radar/17/256/{z}/{x}/{y}/2/1_1.png/256/{z}/{x}/{y}/2/1_1.png'' \<and>
   buildRainViewerTileTemplate ''https://tilecache.rainviewer.com''
       ''/v2/radar/17/256/{z}/{x}/{y}/2/1_1.png''
     \<noteq> ''https://tilecache.rainviewer.com'' @ ''/v2/radar/17/256/{z}/{x}/{y}/2/1_1.png''"
  by (simp add: buildRainViewerTileTemplate_def endsWith_def tileSuffix_def)

text \<open>
  C5 (amended). The provider's \<open>tileTemplateFor\<close> returns host + path when the path
  contains each of the tokens \<open>{z}\<close>, \<open>{x}\<close> and \<open>{y}\<close> somewhere, and host + path +
  \<open>/256/{z}/{x}/{y}/2/1_1.png\<close> otherwise; so it appends the suffix only to a path that
  lacks a placeholder. \<open>buildRainViewerTileTemplate\<close> of \<open>radarIem.ts\<close> appends the
  suffix to every path, placeholders or not, after dropping one trailing \<open>/\<close> of the
  host and putting a \<open>/\<close> before a path that does not start with one.
\<close>

theorem tile_template_builders:
  "((\<exists>u v. p = u @ ''{z}'' @ v) \<and> (\<exists>u v. p = u @ ''{x}'' @ v) \<and> (\<exists>u v. p = u @ ''{y}'' @ v)
      \<longrightarrow> tileTemplateFor h p = h @ p) \<and>
   (\<not> ((\<exists>u v. p = u @ ''{z}'' @ v) \<and> (\<exists>u v. p = u @ ''{x}'' @ v) \<and> (\<exists>u v. p = u @ ''{y}'' @ v))
      \<longrightarrow> tileTemplateFor h p = h @ p @ ''/256/{z}/{x}/{y}/2/1_1.png'') \<and>
   (tileTemplateFor h p = h @ p @ ''/256/{z}/{x}/{y}/2/1_1.png''
      \<longrightarrow> \<not> ((\<exists>u v. p = u @ ''{z}'' @ v) \<and> (\<exists>u v. p = u @ ''{x}'' @ v) \<and> (\<exists>u v. p = u @ ''{y}'' @ v))) \<and>
   buildRainViewerTileTemplate h p =
     (if \<exists>u. h = u @ ''/'' then butlast h else h) @
     (if \<exists>v. p = ''/'' @ v then p else ''/'' @ p) @ ''/256/{z}/{x}/{y}/2/1_1.png'' \<and>
   (\<not> (\<exists>u. h = u @ ''/'') \<and> (\<exists>v. p = ''/'' @ v)
      \<longrightarrow> buildRainViewerTileTemplate h p = h @ p @ ''/256/{z}/{x}/{y}/2/1_1.png'')"
proof -
  have tile: "((\<exists>u v. p = u @ ''{z}'' @ v) \<and> (\<exists>u v. p = u @ ''{x}'' @ v) \<and> (\<exists>u v. p = u @ ''{y}'' @ v)
      \<longrightarrow> tileTemplateFor h p = h @ p) \<and>
   (\<not> ((\<exists>u v. p = u @ ''{z}'' @ v) \<and> (\<exists>u v. p = u @ ''{x}'' @ v) \<and> (\<exists>u v. p = u @ ''{y}'' @ v))
      \<longrightarrow> tileTemplateFor h p = h @ p @ ''/256/{z}/{x}/{y}/2/1_1.png'') \<and>
   (tileTemplateFor h p = h @ p @ ''/256/{z}/{x}/{y}/2/1_1.png''
      \<longrightarrow> \<not> ((\<exists>u v. p = u @ ''{z}'' @ v) \<and> (\<exists>u v. p = u @ ''{x}'' @ v) \<and> (\<exists>u v. p = u @ ''{y}'' @ v)))"
    unfolding str_includes_iff [symmetric]
    by (simp add: tileTemplateFor_def tileSuffix_def)
  have build: "buildRainViewerTileTemplate h p =
     (if \<exists>u. h = u @ ''/'' then butlast h else h) @
     (if \<exists>v. p = ''/'' @ v then p else ''/'' @ p) @ ''/256/{z}/{x}/{y}/2/1_1.png''"
    unfolding endsWith_slash [symmetric] startsWith_iff [symmetric]
    by (simp add: buildRainViewerTileTemplate_def tileSuffix_def Let_def)
  have "\<not> (\<exists>u. h = u @ ''/'') \<and> (\<exists>v. p = ''/'' @ v)
      \<longrightarrow> buildRainViewerTileTemplate h p = h @ p @ ''/256/{z}/{x}/{y}/2/1_1.png''"
    by (simp only: build) simp
  then show ?thesis using tile build by blast
qed

theorem tile_template_builders_witness:
  "tileTemplateFor ''https://tilecache.rainviewer.com'' ''/v2/radar/1700000000''
     = ''https://tilecache.rainviewer.com/v2/radar/1700000000/256/{z}/{x}/{y}/2/1_1.png'' \<and>
   tileTemplateFor ''https://tilecache.rainviewer.com'' ''/v2/radar/17/256/{z}/{x}/{y}/2/1_1.png''
     = ''https://tilecache.rainviewer.com/v2/radar/17/256/{z}/{x}/{y}/2/1_1.png'' \<and>
   buildRainViewerTileTemplate ''https://tilecache.rainviewer.com'' ''/v2/radar/1700000000''
     = ''https://tilecache.rainviewer.com/v2/radar/1700000000/256/{z}/{x}/{y}/2/1_1.png''"
proof -
  have no: "\<not> str_includes ''/v2/radar/1700000000'' ''{z}''"
    by simp
  have yes: "str_includes ''/v2/radar/17/256/{z}/{x}/{y}/2/1_1.png'' ''{z}''"
      "str_includes ''/v2/radar/17/256/{z}/{x}/{y}/2/1_1.png'' ''{x}''"
      "str_includes ''/v2/radar/17/256/{z}/{x}/{y}/2/1_1.png'' ''{y}''"
    by simp_all
  have host: "\<not> endsWith ''https://tilecache.rainviewer.com'' ''/''"
    by (simp add: endsWith_def)
  have path: "startsWith ''/v2/radar/1700000000'' ''/''"
    by simp
  show ?thesis
    using tile_template_builders
            [of "''/v2/radar/1700000000''" "''https://tilecache.rainviewer.com''"]
          tile_template_builders
            [of "''/v2/radar/17/256/{z}/{x}/{y}/2/1_1.png''" "''https://tilecache.rainviewer.com''"]
          no yes host path
    unfolding str_includes_iff endsWith_slash startsWith_iff
    by simp
qed

section \<open>Frame fetch\<close>

lemma map_insort_key: "map f (insort_key f x xs) = insort (f x) (map f xs)"
  by (induction xs) auto

lemma map_sort_key: "map f (sort_key f xs) = sort (map f xs)"
  by (induction xs) (auto simp: map_insort_key)

lemma toFrame_Inr:
  "toFrame t = Inr fr \<longleftrightarrow>
     \<bar>t * 1000\<bar> \<le> 8640000000000000 \<and>
     fr = \<lparr>frame_t = t, frame_iso = ISO (ToIntegerOrInfinity (t * 1000))\<rparr>"
  by (auto simp: toFrame_def toISOString_def)

lemma mapThrowing_toFrame_times:
  "mapThrowing toFrame ts = Inr frames \<Longrightarrow> map frame_t frames = ts"
proof (induction ts arbitrary: frames)
  case Nil
  then show ?case by simp
next
  case (Cons t ts)
  then show ?case
    by (auto simp: toFrame_Inr split: sum.splits)
qed

lemma mapThrowing_total:
  "(\<And>x. x \<in> set xs \<Longrightarrow> \<exists>y. f x = Inr y) \<Longrightarrow> \<exists>ys. mapThrowing f xs = Inr ys"
proof (induction xs)
  case Nil
  then show ?case by simp
next
  case (Cons x xs)
  obtain y where y: "f x = Inr y" using Cons.prems [of x] by auto
  obtain ys where ys: "mapThrowing f xs = Inr ys" using Cons by auto
  show ?case by (simp add: y ys)
qed

lemma mapThrowing_toFrame_total:
  "(\<And>t. t \<in> set ts \<Longrightarrow> \<bar>t * 1000\<bar> \<le> 8640000000000000) \<Longrightarrow>
   \<exists>frames. mapThrowing toFrame ts = Inr frames"
  by (rule mapThrowing_total) (simp add: toFrame_Inr)

lemma fetchFrames_Inr:
  "fetchFrames opts rep = Inr (frames, h, paths) \<longleftrightarrow>
     (\<exists>d. rep = Body d \<and> m_host d = Some h \<and> h \<noteq> [] \<and>
          mapThrowing toFrame (map entryTime (tailEntries opts d)) = Inr frames \<and>
          paths = map entryPath (tailEntries opts d))"
  by (auto simp: fetchFrames_def split: reply.splits option.splits sum.splits)

lemma tail_times:
  "map entryTime (tailEntries opts d) =
     drop (nat (max 0 (int (length (keptEntries opts d)) - maxFrames opts)))
       (sort (map entryTime (keptEntries opts d)))"
  by (simp add: tailEntries_def combinedEntries_def Let_def drop_map map_sort_key [symmetric])

lemma tail_length:
  "0 \<le> maxFrames opts \<Longrightarrow> length (tailEntries opts d) \<le> nat (maxFrames opts)"
  by (auto simp: tailEntries_def combinedEntries_def Let_def)

lemma kept_all:
  "includeNowcast opts \<Longrightarrow> \<forall>e \<in> set (pastOf d @ nowcastOf d). validEntry e \<Longrightarrow>
   keptEntries opts d = pastOf d @ nowcastOf d"
  by (simp add: keptEntries_def)

text \<open>
  C4 (as stated): the frame list is made of all past and nowcast entries. With the
  default options, an entry whose path has three characters is left out, so the frame list
  is empty where the claim has one frame.
\<close>

theorem fetchFrames_drops_entries_counterexample:
  "fetchFrames defaultProviderOpts
     (Body \<lparr>m_host = Some ''https://tilecache.rainviewer.com'',
            m_radar = Some \<lparr>r_past = Some [\<lparr>e_time = JNum 1700000000, e_path = JStr ''/v2''\<rparr>],
                            r_nowcast = Some []\<rparr>\<rparr>)
     = Inr ([], ''https://tilecache.rainviewer.com'', []) \<and>
   claimed_frame_times 12
     \<lparr>m_host = Some ''https://tilecache.rainviewer.com'',
      m_radar = Some \<lparr>r_past = Some [\<lparr>e_time = JNum 1700000000, e_path = JStr ''/v2''\<rparr>],
                      r_nowcast = Some []\<rparr>\<rparr>
     = [1700000000]"
  by (simp add: fetchFrames_def defaultProviderOpts_def tailEntries_def combinedEntries_def
        keptEntries_def pastOf_def nowcastOf_def includeNowcast_def maxFrames_def
        claimed_frame_times_def entryTime_def)

text \<open>
  C4 (amended). Whenever \<open>fetchFrames\<close> returns, the frame times are those of the entries
  it keeps (numeric time, string path longer than three characters; from past and, unless
  \<open>includeNowcast\<close> is switched off, nowcast), sorted ascending and cut to the last \<open>N\<close>,
  where \<open>N\<close> is \<open>maxFrames\<close>, 12 by default; the paths are those of the same entries
  in the same order. It returns for every OK response with a non-empty host whose kept
  times are within the range of \<open>Date\<close>. When every entry is kept, the frame times are the
  ones the claim gives.
\<close>

theorem fetchFrames_frame_list:
  "(fetchFrames opts rep = Inr (frames, h, paths) \<longrightarrow>
      (\<exists>d. rep = Body d \<and> m_host d = Some h \<and>
         map frame_t frames =
           drop (nat (max 0 (int (length (keptEntries opts d)) - maxFrames opts)))
             (sort (map entryTime (keptEntries opts d))) \<and>
         paths =
           map entryPath
             (drop (nat (max 0 (int (length (keptEntries opts d)) - maxFrames opts)))
                (sort_key entryTime (keptEntries opts d))) \<and>
         sorted (map frame_t frames) \<and>
         (0 \<le> maxFrames opts \<longrightarrow> length frames \<le> nat (maxFrames opts)) \<and>
         (includeNowcast opts \<and> 0 \<le> maxFrames opts \<and>
          (\<forall>e \<in> set (pastOf d @ nowcastOf d). validEntry e)
            \<longrightarrow> map frame_t frames = claimed_frame_times (nat (maxFrames opts)) d))) \<and>
   (m_host d' = Some h' \<and> h' \<noteq> [] \<and>
    (\<forall>e \<in> set (keptEntries opts d'). \<bar>entryTime e * 1000\<bar> \<le> 8640000000000000)
      \<longrightarrow> (\<exists>fs ps. fetchFrames opts (Body d') = Inr (fs, h', ps))) \<and>
   (opt_maxFrames opts = None \<longrightarrow> maxFrames opts = 12)"
proof (intro conjI impI)
  assume ok: "fetchFrames opts rep = Inr (frames, h, paths)"
  then obtain d where d: "rep = Body d" "m_host d = Some h"
    and fr: "mapThrowing toFrame (map entryTime (tailEntries opts d)) = Inr frames"
    and ps: "paths = map entryPath (tailEntries opts d)"
    by (auto simp: fetchFrames_Inr)
  let ?n = "nat (max 0 (int (length (keptEntries opts d)) - maxFrames opts))"
  have times: "map frame_t frames = drop ?n (sort (map entryTime (keptEntries opts d)))"
    using mapThrowing_toFrame_times [OF fr] by (simp only: tail_times)
  have srt: "sorted (map frame_t frames)"
    by (simp only: times sorted_wrt_drop sorted_sort)
  have len: "0 \<le> maxFrames opts \<longrightarrow> length frames \<le> nat (maxFrames opts)"
  proof
    assume "0 \<le> maxFrames opts"
    then have "length (tailEntries opts d) \<le> nat (maxFrames opts)" by (rule tail_length)
    moreover have "length frames = length (tailEntries opts d)"
      using mapThrowing_toFrame_times [OF fr] by (metis length_map)
    ultimately show "length frames \<le> nat (maxFrames opts)" by simp
  qed
  have claim: "includeNowcast opts \<and> 0 \<le> maxFrames opts \<and>
          (\<forall>e \<in> set (pastOf d @ nowcastOf d). validEntry e)
            \<longrightarrow> map frame_t frames = claimed_frame_times (nat (maxFrames opts)) d"
  proof
    assume a: "includeNowcast opts \<and> 0 \<le> maxFrames opts \<and>
          (\<forall>e \<in> set (pastOf d @ nowcastOf d). validEntry e)"
    then have k: "keptEntries opts d = pastOf d @ nowcastOf d" by (simp add: kept_all)
    have "nat (max 0 (int (length (pastOf d @ nowcastOf d)) - maxFrames opts))
            = length (pastOf d @ nowcastOf d) - nat (maxFrames opts)"
      using a by auto
    then show "map frame_t frames = claimed_frame_times (nat (maxFrames opts)) d"
      by (simp add: times k claimed_frame_times_def Let_def)
  qed
  show "\<exists>d. rep = Body d \<and> m_host d = Some h \<and>
         map frame_t frames =
           drop (nat (max 0 (int (length (keptEntries opts d)) - maxFrames opts)))
             (sort (map entryTime (keptEntries opts d))) \<and>
         paths =
           map entryPath
             (drop (nat (max 0 (int (length (keptEntries opts d)) - maxFrames opts)))
                (sort_key entryTime (keptEntries opts d))) \<and>
         sorted (map frame_t frames) \<and>
         (0 \<le> maxFrames opts \<longrightarrow> length frames \<le> nat (maxFrames opts)) \<and>
         (includeNowcast opts \<and> 0 \<le> maxFrames opts \<and>
          (\<forall>e \<in> set (pastOf d @ nowcastOf d). validEntry e)
            \<longrightarrow> map frame_t frames = claimed_frame_times (nat (maxFrames opts)) d)"
    using d times srt len claim ps
    by (intro exI [of _ d]) (simp add: tailEntries_def combinedEntries_def Let_def)
next
  assume a: "m_host d' = Some h' \<and> h' \<noteq> [] \<and>
    (\<forall>e \<in> set (keptEntries opts d'). \<bar>entryTime e * 1000\<bar> \<le> 8640000000000000)"
  have "set (tailEntries opts d') \<subseteq> set (keptEntries opts d')"
    by (auto simp: tailEntries_def combinedEntries_def Let_def dest: in_set_dropD)
  then have "\<And>t. t \<in> set (map entryTime (tailEntries opts d')) \<Longrightarrow> \<bar>t * 1000\<bar> \<le> 8640000000000000"
    using a by auto
  then obtain fs where "mapThrowing toFrame (map entryTime (tailEntries opts d')) = Inr fs"
    using mapThrowing_toFrame_total by blast
  then show "\<exists>fs ps. fetchFrames opts (Body d') = Inr (fs, h', ps)"
    using a by (simp add: fetchFrames_Inr)
next
  assume "opt_maxFrames opts = None"
  then show "maxFrames opts = 12" by (simp add: maxFrames_def)
qed

section \<open>The manifest caches\<close>

lemma fetchFrames_sampleManifest:
  "fetchFrames defaultProviderOpts (Body sampleManifest)
     = Inr (sampleFrames, ''https://tilecache.rainviewer.com'', samplePaths)"
  by (simp add: fetchFrames_def defaultProviderOpts_def sampleManifest_def tailEntries_def
        combinedEntries_def keptEntries_def pastOf_def nowcastOf_def includeNowcast_def
        maxFrames_def entryTime_def entryPath_def toFrame_def toISOString_def
        ToIntegerOrInfinity_def sampleFrames_def samplePaths_def)

lemma fetchFrames_malformedManifest:
  "fetchFrames defaultProviderOpts (Body malformedManifest)
     = Inr ([], ''https://tilecache.rainviewer.com'', [])"
  by (simp add: fetchFrames_def defaultProviderOpts_def malformedManifest_def tailEntries_def
        combinedEntries_def keptEntries_def pastOf_def nowcastOf_def includeNowcast_def
        maxFrames_def)

lemma ttlMs_default: "ttlMs defaultProviderOpts = 60000"
  by (simp add: ttlMs_def defaultProviderOpts_def)

lemma getFrames_first_load:
  "getFrames defaultProviderOpts 0 (Body sampleManifest) emptyProviderCache
     = (Inr sampleFrames, loadedCache, 1)"
  by (simp add: getFrames_def freshFrames_def emptyProviderCache_def fetchFrames_sampleManifest
        loadedCache_def ttlMs_default)

lemma freshFrames_loadedCache:
  "freshFrames loadedCache now = (if now < 60000 then Some sampleFrames else None)"
  by (simp add: freshFrames_def loadedCache_def)

lemma getFrames_miss:
  "freshFrames c now = None \<Longrightarrow>
   getFrames opts now rep c =
     (case fetchFrames opts rep of
        Inl e \<Rightarrow> (Inl e, c, 1)
      | Inr (frames, h, ps) \<Rightarrow>
          (Inr frames,
           \<lparr>cachedFrames = Some frames, cacheExpiresAt = now + ttlMs opts,
            cachedHost = Some h, cachedPaths = Some ps\<rparr>, 1))"
  by (simp add: getFrames_def)

lemma getFrames_hit:
  "freshFrames c now = Some frames \<Longrightarrow> getFrames opts now rep c = (Inr frames, c, 0)"
  by (simp add: getFrames_def)

lemma fetchFrames_host_nonempty:
  "fetchFrames opts rep = Inr (frames, h, ps) \<Longrightarrow> h \<noteq> []"
  by (auto simp: fetchFrames_def split: reply.splits option.splits sum.splits if_splits)

text \<open>
  C3 (as stated): a response with non-numeric time or path fields, or with an empty frame
  list, is not stored and the caller gets an error. In the provider, with a loaded cache
  that has just expired, a body whose only entry has a non-numeric time makes \<open>getFrames\<close>
  return an empty frame list without an error and replaces the cached manifest by the
  empty one. The adapter of \<open>radarIem.ts\<close> stores a body without a host.
\<close>

theorem malformed_manifest_is_cached_counterexample:
  "getFrames defaultProviderOpts 60000 (Body malformedManifest) loadedCache
     = (Inr [],
        \<lparr>cachedFrames = Some [], cacheExpiresAt = 120000,
         cachedHost = Some ''https://tilecache.rainviewer.com'', cachedPaths = Some []\<rparr>, 1) \<and>
   cachedFrames loadedCache = Some sampleFrames \<and>
   fetchRainViewerMapsJson 60000 (Body \<lparr>m_host = None, m_radar = None\<rparr>) RV_CACHE_initial
     = (Inr \<lparr>m_host = None, m_radar = None\<rparr>,
        \<lparr>rv_at = 60000, rv_data = Some \<lparr>m_host = None, m_radar = None\<rparr>\<rparr>, 1)"
proof (intro conjI)
  have stale: "freshFrames loadedCache 60000 = None"
    by (simp add: freshFrames_loadedCache)
  show "getFrames defaultProviderOpts 60000 (Body malformedManifest) loadedCache
     = (Inr [],
        \<lparr>cachedFrames = Some [], cacheExpiresAt = 120000,
         cachedHost = Some ''https://tilecache.rainviewer.com'', cachedPaths = Some []\<rparr>, 1)"
    by (simp add: getFrames_miss [OF stale] fetchFrames_malformedManifest ttlMs_default)
  show "cachedFrames loadedCache = Some sampleFrames"
    by (simp add: loadedCache_def)
  show "fetchRainViewerMapsJson 60000 (Body \<lparr>m_host = None, m_radar = None\<rparr>) RV_CACHE_initial
     = (Inr \<lparr>m_host = None, m_radar = None\<rparr>,
        \<lparr>rv_at = 60000, rv_data = Some \<lparr>m_host = None, m_radar = None\<rparr>\<rparr>, 1)"
    by (simp add: fetchRainViewerMapsJson_def RV_CACHE_initial_def)
qed

text \<open>
  C3 (amended). When \<open>getFrames\<close> has to fetch and the fetch fails, the cache is left as
  it was and the error goes to the caller; the fetch fails when the request is rejected,
  when the status is not OK, and when the body has no host or an empty one. A body with a
  host whose kept times are valid dates is not a failure, whatever else its entries hold:
  the entries with a non-numeric time or a path that is not a string of more than three
  characters are dropped, and the frames of the remaining ones, even none, are returned and
  stored together with the host and the paths. \<open>fetchRainViewerMapsJson\<close> leaves its cache
  as it was on a rejected or not-OK fetch and stores every OK body as received.
\<close>

theorem failed_fetch_not_cached:
  "(freshFrames c now = None \<and> fetchFrames opts rep = Inl e
      \<longrightarrow> getFrames opts now rep c = (Inl e, c, 1)) \<and>
   fetchFrames opts Rejected = Inl FetchFailed \<and>
   fetchFrames opts (NotOk status) = Inl (HttpStatus status) \<and>
   (m_host d = None \<or> m_host d = Some [] \<longrightarrow> fetchFrames opts (Body d) = Inl MissingHost) \<and>
   (freshFrames c now = None \<and> m_host d = Some h \<and> h \<noteq> [] \<and>
    (\<forall>x \<in> set (keptEntries opts d). \<bar>entryTime x * 1000\<bar> \<le> 8640000000000000)
      \<longrightarrow> (\<exists>frames.
            map frame_t frames = map entryTime (tailEntries opts d) \<and>
            getFrames opts now (Body d) c =
              (Inr frames,
               \<lparr>cachedFrames = Some frames, cacheExpiresAt = now + ttlMs opts,
                cachedHost = Some h, cachedPaths = Some (map entryPath (tailEntries opts d))\<rparr>,
               1))) \<and>
   ((now - rv_at c2 < RV_TTL_MS \<longrightarrow> rv_data c2 = None)
      \<longrightarrow> fetchRainViewerMapsJson now Rejected c2 = (Inl FetchFailed, c2, 1) \<and>
          fetchRainViewerMapsJson now (NotOk status) c2 = (Inl (HttpStatus status), c2, 1) \<and>
          fetchRainViewerMapsJson now (Body d) c2 = (Inr d, \<lparr>rv_at = now, rv_data = Some d\<rparr>, 1))"
proof (intro conjI impI)
  assume a: "freshFrames c now = None \<and> m_host d = Some h \<and> h \<noteq> [] \<and>
    (\<forall>x \<in> set (keptEntries opts d). \<bar>entryTime x * 1000\<bar> \<le> 8640000000000000)"
  have "set (tailEntries opts d) \<subseteq> set (keptEntries opts d)"
    by (auto simp: tailEntries_def combinedEntries_def Let_def dest: in_set_dropD)
  then have "\<And>t. t \<in> set (map entryTime (tailEntries opts d)) \<Longrightarrow> \<bar>t * 1000\<bar> \<le> 8640000000000000"
    using a by auto
  then obtain frames where fr: "mapThrowing toFrame (map entryTime (tailEntries opts d)) = Inr frames"
    using mapThrowing_toFrame_total by blast
  have "fetchFrames opts (Body d) = Inr (frames, h, map entryPath (tailEntries opts d))"
    using a fr by (simp add: fetchFrames_Inr)
  then have "getFrames opts now (Body d) c =
              (Inr frames,
               \<lparr>cachedFrames = Some frames, cacheExpiresAt = now + ttlMs opts,
                cachedHost = Some h, cachedPaths = Some (map entryPath (tailEntries opts d))\<rparr>,
               1)"
    using a by (simp add: getFrames_miss)
  then show "\<exists>frames.
            map frame_t frames = map entryTime (tailEntries opts d) \<and>
            getFrames opts now (Body d) c =
              (Inr frames,
               \<lparr>cachedFrames = Some frames, cacheExpiresAt = now + ttlMs opts,
                cachedHost = Some h, cachedPaths = Some (map entryPath (tailEntries opts d))\<rparr>,
               1)"
    using mapThrowing_toFrame_times [OF fr] by blast
next
  assume "m_host d = None \<or> m_host d = Some []"
  then show "fetchFrames opts (Body d) = Inl MissingHost"
    by (auto simp: fetchFrames_def)
next
  assume "freshFrames c now = None \<and> fetchFrames opts rep = Inl e"
  then show "getFrames opts now rep c = (Inl e, c, 1)"
    by (simp add: getFrames_miss)
next
  assume stale: "now - rv_at c2 < RV_TTL_MS \<longrightarrow> rv_data c2 = None"
  show "fetchRainViewerMapsJson now Rejected c2 = (Inl FetchFailed, c2, 1)"
    using stale by (simp add: fetchRainViewerMapsJson_def)
  show "fetchRainViewerMapsJson now (NotOk status) c2 = (Inl (HttpStatus status), c2, 1)"
    using stale by (simp add: fetchRainViewerMapsJson_def)
  show "fetchRainViewerMapsJson now (Body d) c2 = (Inr d, \<lparr>rv_at = now, rv_data = Some d\<rparr>, 1)"
    using stale by (simp add: fetchRainViewerMapsJson_def)
qed (simp_all add: fetchFrames_def)

lemma fetchFrames_laterManifest:
  "fetchFrames defaultProviderOpts (Body laterManifest)
     = Inr (laterFrames, ''https://cdn.rainviewer.com'', [''/v2/radar/1700001800''])"
  by (simp add: fetchFrames_def defaultProviderOpts_def laterManifest_def tailEntries_def
        combinedEntries_def keptEntries_def pastOf_def nowcastOf_def includeNowcast_def
        maxFrames_def entryTime_def entryPath_def toFrame_def toISOString_def
        ToIntegerOrInfinity_def laterFrames_def)

lemma providerGetFrames_miss:
  "freshFrames (providerView m c) now = None \<Longrightarrow>
   providerGetFrames opts now rep m c =
     (case fetchFrames opts rep of
        Inl e \<Rightarrow> (Inl e, m, c, 1)
      | Inr (frames, h, ps) \<Rightarrow>
          (Inr frames,
           \<lparr>mod_cachedFrames = Some frames, mod_cacheExpiresAt = now + ttlMs opts\<rparr>,
           \<lparr>clo_cachedHost = Some h, clo_cachedPaths = Some ps\<rparr>, 1))"
  by (simp add: providerGetFrames_def getFrames_miss providerView_def split: sum.splits)

lemma providerGetFrames_hit:
  "freshFrames (providerView m c) now = Some frames \<Longrightarrow>
   providerGetFrames opts now rep m c = (Inr frames, m, c, 0)"
  by (simp add: providerGetFrames_def getFrames_hit providerView_def)

lemma freshFrames_providerView:
  "freshFrames (providerView m c) now =
     (case (mod_cachedFrames m, clo_cachedHost c, clo_cachedPaths c) of
        (Some frames, Some h, Some ps) \<Rightarrow>
          if now < mod_cacheExpiresAt m \<and> h \<noteq> [] then Some frames else None
      | _ \<Rightarrow> None)"
  by (auto simp: freshFrames_def providerView_def split: option.splits)

text \<open>
  C7 (as stated): a second \<open>getFrames\<close> call inside the TTL makes no upstream fetch, and
  a refresh replaces frames, host and paths together. Two providers share the module's
  \<open>cachedFrames\<close> and \<open>cacheExpiresAt\<close> but not host and paths. Provider A loads at time
  0; provider B, made from the same module, calls \<open>getFrames\<close> at 1000, inside the TTL, and
  fetches again, since its own host is not set; at 2000 provider A makes no fetch and
  returns B's frames, beside its own host and paths.
\<close>

theorem second_provider_fetches_inside_ttl_counterexample:
  "providerGetFrames defaultProviderOpts 0 (Body sampleManifest) initialModuleVars
       initialClosureVars
     = (Inr sampleFrames,
        \<lparr>mod_cachedFrames = Some sampleFrames, mod_cacheExpiresAt = 60000\<rparr>,
        \<lparr>clo_cachedHost = Some ''https://tilecache.rainviewer.com'',
         clo_cachedPaths = Some samplePaths\<rparr>, 1) \<and>
   providerGetFrames defaultProviderOpts 1000 (Body laterManifest)
       \<lparr>mod_cachedFrames = Some sampleFrames, mod_cacheExpiresAt = 60000\<rparr> initialClosureVars
     = (Inr laterFrames,
        \<lparr>mod_cachedFrames = Some laterFrames, mod_cacheExpiresAt = 61000\<rparr>,
        \<lparr>clo_cachedHost = Some ''https://cdn.rainviewer.com'',
         clo_cachedPaths = Some [''/v2/radar/1700001800'']\<rparr>, 1) \<and>
   providerGetFrames defaultProviderOpts 2000 Rejected
       \<lparr>mod_cachedFrames = Some laterFrames, mod_cacheExpiresAt = 61000\<rparr>
       \<lparr>clo_cachedHost = Some ''https://tilecache.rainviewer.com'',
        clo_cachedPaths = Some samplePaths\<rparr>
     = (Inr laterFrames,
        \<lparr>mod_cachedFrames = Some laterFrames, mod_cacheExpiresAt = 61000\<rparr>,
        \<lparr>clo_cachedHost = Some ''https://tilecache.rainviewer.com'',
         clo_cachedPaths = Some samplePaths\<rparr>, 0)"
proof (intro conjI)
  have a: "freshFrames (providerView initialModuleVars initialClosureVars) 0 = None"
    by (simp add: freshFrames_providerView initialModuleVars_def initialClosureVars_def)
  show "providerGetFrames defaultProviderOpts 0 (Body sampleManifest) initialModuleVars
       initialClosureVars
     = (Inr sampleFrames,
        \<lparr>mod_cachedFrames = Some sampleFrames, mod_cacheExpiresAt = 60000\<rparr>,
        \<lparr>clo_cachedHost = Some ''https://tilecache.rainviewer.com'',
         clo_cachedPaths = Some samplePaths\<rparr>, 1)"
    by (simp add: providerGetFrames_miss [OF a] fetchFrames_sampleManifest ttlMs_default)
  have b: "freshFrames (providerView \<lparr>mod_cachedFrames = Some sampleFrames, mod_cacheExpiresAt = 60000\<rparr>
             initialClosureVars) 1000 = None"
    by (simp add: freshFrames_providerView initialClosureVars_def)
  show "providerGetFrames defaultProviderOpts 1000 (Body laterManifest)
       \<lparr>mod_cachedFrames = Some sampleFrames, mod_cacheExpiresAt = 60000\<rparr> initialClosureVars
     = (Inr laterFrames,
        \<lparr>mod_cachedFrames = Some laterFrames, mod_cacheExpiresAt = 61000\<rparr>,
        \<lparr>clo_cachedHost = Some ''https://cdn.rainviewer.com'',
         clo_cachedPaths = Some [''/v2/radar/1700001800'']\<rparr>, 1)"
    by (simp add: providerGetFrames_miss [OF b] fetchFrames_laterManifest ttlMs_default)
  have c: "freshFrames (providerView \<lparr>mod_cachedFrames = Some laterFrames, mod_cacheExpiresAt = 61000\<rparr>
             \<lparr>clo_cachedHost = Some ''https://tilecache.rainviewer.com'',
              clo_cachedPaths = Some samplePaths\<rparr>) 2000 = Some laterFrames"
    by (simp add: freshFrames_providerView)
  show "providerGetFrames defaultProviderOpts 2000 Rejected
       \<lparr>mod_cachedFrames = Some laterFrames, mod_cacheExpiresAt = 61000\<rparr>
       \<lparr>clo_cachedHost = Some ''https://tilecache.rainviewer.com'',
        clo_cachedPaths = Some samplePaths\<rparr>
     = (Inr laterFrames,
        \<lparr>mod_cachedFrames = Some laterFrames, mod_cacheExpiresAt = 61000\<rparr>,
        \<lparr>clo_cachedHost = Some ''https://tilecache.rainviewer.com'',
         clo_cachedPaths = Some samplePaths\<rparr>, 0)"
    by (rule providerGetFrames_hit [OF c])
qed

text \<open>
  C7 (amended). For one provider, with no \<open>getFrames\<close> of another provider of the module
  in between: after a call at time \<open>t0\<close> that fetched and stored a manifest, a call at a
  time \<open>now\<close> with \<open>now < t0 + ttl\<close> makes no fetch, returns the stored frames and
  leaves all four variables as they are; a call with \<open>now \<ge> t0 + ttl\<close> makes exactly one
  fetch, and the manifest that fetch delivers replaces frames, expiry, host and paths
  together. The same holds for \<open>fetchRainViewerMapsJson\<close>, whose one cache belongs to
  the module, with its fixed TTL of 60000 ms. The provider's TTL is 60000 ms unless
  \<open>ttlMs\<close> is given.
\<close>

theorem cache_ttl:
  "(providerGetFrames opts t0 rep0 m0 c0 = (Inr frames, m1, c1, 1) \<longrightarrow>
      (now < t0 + ttlMs opts \<longrightarrow> providerGetFrames opts now rep m1 c1 = (Inr frames, m1, c1, 0)) \<and>
      (t0 + ttlMs opts \<le> now \<longrightarrow>
         snd (snd (snd (providerGetFrames opts now rep m1 c1))) = 1 \<and>
         (fetchFrames opts rep = Inr (frames', h', ps') \<longrightarrow>
            providerGetFrames opts now rep m1 c1 =
              (Inr frames',
               \<lparr>mod_cachedFrames = Some frames', mod_cacheExpiresAt = now + ttlMs opts\<rparr>,
               \<lparr>clo_cachedHost = Some h', clo_cachedPaths = Some ps'\<rparr>, 1)))) \<and>
   (fetchRainViewerMapsJson t0 rep0 k0 = (Inr d, k1, 1) \<longrightarrow>
      (now - t0 < 60000 \<longrightarrow> fetchRainViewerMapsJson now rep k1 = (Inr d, k1, 0)) \<and>
      (60000 \<le> now - t0 \<longrightarrow>
         snd (snd (fetchRainViewerMapsJson now rep k1)) = 1 \<and>
         fetchRainViewerMapsJson now (Body d') k1 = (Inr d', \<lparr>rv_at = now, rv_data = Some d'\<rparr>, 1))) \<and>
   (opt_ttlMs opts = None \<longrightarrow> ttlMs opts = 60000)"
proof (intro conjI impI)
  assume first: "providerGetFrames opts t0 rep0 m0 c0 = (Inr frames, m1, c1, 1)"
  then obtain h ps where m1: "m1 = \<lparr>mod_cachedFrames = Some frames, mod_cacheExpiresAt = t0 + ttlMs opts\<rparr>"
    and c1: "c1 = \<lparr>clo_cachedHost = Some h, clo_cachedPaths = Some ps\<rparr>" and h: "h \<noteq> []"
    by (auto simp: providerGetFrames_def getFrames_def split: option.splits sum.splits
          dest: fetchFrames_host_nonempty)
  {
    assume "now < t0 + ttlMs opts"
    then have "freshFrames (providerView m1 c1) now = Some frames"
      using h by (simp add: m1 c1 freshFrames_providerView)
    then show "providerGetFrames opts now rep m1 c1 = (Inr frames, m1, c1, 0)"
      by (rule providerGetFrames_hit)
  }
  {
    assume "t0 + ttlMs opts \<le> now"
    then have stale: "freshFrames (providerView m1 c1) now = None"
      by (simp add: m1 c1 freshFrames_providerView)
    show "snd (snd (snd (providerGetFrames opts now rep m1 c1))) = 1"
      by (simp add: providerGetFrames_miss [OF stale] split: sum.splits)
    {
      assume "fetchFrames opts rep = Inr (frames', h', ps')"
      then show "providerGetFrames opts now rep m1 c1 =
              (Inr frames',
               \<lparr>mod_cachedFrames = Some frames', mod_cacheExpiresAt = now + ttlMs opts\<rparr>,
               \<lparr>clo_cachedHost = Some h', clo_cachedPaths = Some ps'\<rparr>, 1)"
        by (simp add: providerGetFrames_miss [OF stale])
    }
  }
next
  assume first: "fetchRainViewerMapsJson t0 rep0 k0 = (Inr d, k1, 1)"
  then have k1: "k1 = \<lparr>rv_at = t0, rv_data = Some d\<rparr>"
    by (auto simp: fetchRainViewerMapsJson_def split: option.splits reply.splits if_splits)
  {
    assume "now - t0 < 60000"
    then show "fetchRainViewerMapsJson now rep k1 = (Inr d, k1, 0)"
      by (simp add: k1 fetchRainViewerMapsJson_def RV_TTL_MS_def)
  }
  {
    assume "60000 \<le> now - t0"
    then show "snd (snd (fetchRainViewerMapsJson now rep k1)) = 1"
      and "fetchRainViewerMapsJson now (Body d') k1 = (Inr d', \<lparr>rv_at = now, rv_data = Some d'\<rparr>, 1)"
      by (simp_all add: k1 fetchRainViewerMapsJson_def RV_TTL_MS_def split: reply.splits)
  }
next
  assume "opt_ttlMs opts = None"
  then show "ttlMs opts = 60000" by (simp add: ttlMs_def)
qed

section \<open>Frame fetch and caches on the sample manifest\<close>

lemma sampleManifest_entries:
  "pastOf sampleManifest @ nowcastOf sampleManifest =
     [\<lparr>e_time = JNum 1700000600, e_path = JStr ''/v2/radar/1700000600''\<rparr>,
      \<lparr>e_time = JNum 1700000000, e_path = JStr ''/v2/radar/1700000000''\<rparr>,
      \<lparr>e_time = JNum 1700001200, e_path = JStr ''/v2/radar/1700001200''\<rparr>]"
  by (simp add: sampleManifest_def pastOf_def nowcastOf_def)

lemma sampleManifest_kept:
  "keptEntries defaultProviderOpts sampleManifest = pastOf sampleManifest @ nowcastOf sampleManifest"
  by (simp add: keptEntries_def includeNowcast_def defaultProviderOpts_def sampleManifest_entries)

lemma malformedManifest_kept: "keptEntries defaultProviderOpts malformedManifest = []"
  by (simp add: keptEntries_def includeNowcast_def defaultProviderOpts_def malformedManifest_def
        pastOf_def nowcastOf_def)

theorem fetchFrames_frame_list_witness:
  "fetchFrames defaultProviderOpts (Body sampleManifest)
     = Inr (sampleFrames, ''https://tilecache.rainviewer.com'', samplePaths) \<and>
   map frame_t sampleFrames = [1700000000, 1700000600, 1700001200] \<and>
   map frame_t sampleFrames = claimed_frame_times 12 sampleManifest \<and>
   sorted (map frame_t sampleFrames) \<and> length sampleFrames \<le> 12 \<and>
   maxFrames defaultProviderOpts = 12"
proof -
  have run: "fetchFrames defaultProviderOpts (Body sampleManifest)
     = Inr (sampleFrames, ''https://tilecache.rainviewer.com'', samplePaths)"
    by (rule fetchFrames_sampleManifest)
  have opts: "includeNowcast defaultProviderOpts" "0 \<le> maxFrames defaultProviderOpts"
      "opt_maxFrames defaultProviderOpts = None" "nat (maxFrames defaultProviderOpts) = 12"
    by (simp_all add: includeNowcast_def maxFrames_def defaultProviderOpts_def)
  have valid: "\<forall>e \<in> set (pastOf sampleManifest @ nowcastOf sampleManifest). validEntry e"
    by (simp add: sampleManifest_entries)
  have host: "m_host sampleManifest = Some ''https://tilecache.rainviewer.com''"
      "''https://tilecache.rainviewer.com'' \<noteq> []"
    by (simp_all add: sampleManifest_def)
  have range: "\<forall>e \<in> set (keptEntries defaultProviderOpts sampleManifest).
                 \<bar>entryTime e * 1000\<bar> \<le> 8640000000000000"
    by (simp add: sampleManifest_kept sampleManifest_entries entryTime_def)
  have times: "map frame_t sampleFrames = [1700000000, 1700000600, 1700001200]"
    by (simp add: sampleFrames_def)
  show ?thesis
    using fetchFrames_frame_list [of defaultProviderOpts "Body sampleManifest" sampleFrames
            "''https://tilecache.rainviewer.com''" samplePaths sampleManifest
            "''https://tilecache.rainviewer.com''"]
          run opts valid host range times
    by auto
qed

theorem failed_fetch_not_cached_witness:
  "getFrames defaultProviderOpts 60000 (NotOk 503) loadedCache
     = (Inl (HttpStatus 503), loadedCache, 1) \<and>
   fetchFrames defaultProviderOpts (Body \<lparr>m_host = None, m_radar = None\<rparr>) = Inl MissingHost \<and>
   getFrames defaultProviderOpts 60000 (Body malformedManifest) loadedCache
     = (Inr [],
        \<lparr>cachedFrames = Some [], cacheExpiresAt = 120000,
         cachedHost = Some ''https://tilecache.rainviewer.com'', cachedPaths = Some []\<rparr>, 1) \<and>
   fetchRainViewerMapsJson 60000 (NotOk 503) RV_CACHE_initial
     = (Inl (HttpStatus 503), RV_CACHE_initial, 1)"
proof -
  have stale: "freshFrames loadedCache 60000 = None"
    by (simp add: freshFrames_loadedCache)
  have err: "fetchFrames defaultProviderOpts (NotOk 503) = Inl (HttpStatus 503)"
    by (simp add: fetchFrames_def)
  have nohost: "m_host \<lparr>m_host = None, m_radar = None\<rparr> = None"
    by simp
  have host: "m_host malformedManifest = Some ''https://tilecache.rainviewer.com''"
      "''https://tilecache.rainviewer.com'' \<noteq> []"
    by (simp_all add: malformedManifest_def)
  have range: "\<forall>x \<in> set (keptEntries defaultProviderOpts malformedManifest).
                 \<bar>entryTime x * 1000\<bar> \<le> 8640000000000000"
    by (simp add: malformedManifest_kept)
  have tail: "tailEntries defaultProviderOpts malformedManifest = []"
    by (simp add: tailEntries_def combinedEntries_def malformedManifest_kept)
  have rv: "now - rv_at RV_CACHE_initial < RV_TTL_MS \<longrightarrow> rv_data RV_CACHE_initial = None" for now
    by (simp add: RV_CACHE_initial_def)
  show ?thesis
    using failed_fetch_not_cached [of loadedCache 60000 defaultProviderOpts "NotOk 503"
            "HttpStatus 503" 503 "\<lparr>m_host = None, m_radar = None\<rparr>"
            "''https://tilecache.rainviewer.com''" RV_CACHE_initial]
          failed_fetch_not_cached [of loadedCache 60000 defaultProviderOpts "NotOk 503"
            "HttpStatus 503" 503 malformedManifest
            "''https://tilecache.rainviewer.com''" RV_CACHE_initial]
          stale err nohost host range tail rv [of 60000]
    by (auto simp: ttlMs_default)
qed

theorem cache_ttl_witness:
  "providerGetFrames defaultProviderOpts 0 (Body sampleManifest) initialModuleVars
       initialClosureVars
     = (Inr sampleFrames,
        \<lparr>mod_cachedFrames = Some sampleFrames, mod_cacheExpiresAt = 60000\<rparr>,
        \<lparr>clo_cachedHost = Some ''https://tilecache.rainviewer.com'',
         clo_cachedPaths = Some samplePaths\<rparr>, 1) \<and>
   providerGetFrames defaultProviderOpts 59999 Rejected
       \<lparr>mod_cachedFrames = Some sampleFrames, mod_cacheExpiresAt = 60000\<rparr>
       \<lparr>clo_cachedHost = Some ''https://tilecache.rainviewer.com'',
        clo_cachedPaths = Some samplePaths\<rparr>
     = (Inr sampleFrames,
        \<lparr>mod_cachedFrames = Some sampleFrames, mod_cacheExpiresAt = 60000\<rparr>,
        \<lparr>clo_cachedHost = Some ''https://tilecache.rainviewer.com'',
         clo_cachedPaths = Some samplePaths\<rparr>, 0) \<and>
   providerGetFrames defaultProviderOpts 60000 (Body laterManifest)
       \<lparr>mod_cachedFrames = Some sampleFrames, mod_cacheExpiresAt = 60000\<rparr>
       \<lparr>clo_cachedHost = Some ''https://tilecache.rainviewer.com'',
        clo_cachedPaths = Some samplePaths\<rparr>
     = (Inr laterFrames,
        \<lparr>mod_cachedFrames = Some laterFrames, mod_cacheExpiresAt = 120000\<rparr>,
        \<lparr>clo_cachedHost = Some ''https://cdn.rainviewer.com'',
         clo_cachedPaths = Some [''/v2/radar/1700001800'']\<rparr>, 1) \<and>
   fetchRainViewerMapsJson 59999 Rejected \<lparr>rv_at = 0, rv_data = Some sampleManifest\<rparr>
     = (Inr sampleManifest, \<lparr>rv_at = 0, rv_data = Some sampleManifest\<rparr>, 0) \<and>
   fetchRainViewerMapsJson 60000 (Body laterManifest) \<lparr>rv_at = 0, rv_data = Some sampleManifest\<rparr>
     = (Inr laterManifest, \<lparr>rv_at = 60000, rv_data = Some laterManifest\<rparr>, 1) \<and>
   ttlMs defaultProviderOpts = 60000"
proof -
  have stale: "freshFrames (providerView initialModuleVars initialClosureVars) 0 = None"
    by (simp add: freshFrames_providerView initialModuleVars_def initialClosureVars_def)
  have first: "providerGetFrames defaultProviderOpts 0 (Body sampleManifest) initialModuleVars
       initialClosureVars
     = (Inr sampleFrames,
        \<lparr>mod_cachedFrames = Some sampleFrames, mod_cacheExpiresAt = 60000\<rparr>,
        \<lparr>clo_cachedHost = Some ''https://tilecache.rainviewer.com'',
         clo_cachedPaths = Some samplePaths\<rparr>, 1)"
    by (simp add: providerGetFrames_miss [OF stale] fetchFrames_sampleManifest ttlMs_default)
  have first': "fetchRainViewerMapsJson 0 (Body sampleManifest) RV_CACHE_initial
     = (Inr sampleManifest, \<lparr>rv_at = 0, rv_data = Some sampleManifest\<rparr>, 1)"
    by (simp add: fetchRainViewerMapsJson_def RV_CACHE_initial_def)
  have ttl: "ttlMs defaultProviderOpts = 60000"
    by (rule ttlMs_default)
  have ttl': "opt_ttlMs defaultProviderOpts = None"
    by (simp add: defaultProviderOpts_def)
  have nxt: "fetchFrames defaultProviderOpts (Body laterManifest)
     = Inr (laterFrames, ''https://cdn.rainviewer.com'', [''/v2/radar/1700001800''])"
    by (rule fetchFrames_laterManifest)
  show ?thesis
    using cache_ttl [of defaultProviderOpts 0 "Body sampleManifest" initialModuleVars
            initialClosureVars sampleFrames
            "\<lparr>mod_cachedFrames = Some sampleFrames, mod_cacheExpiresAt = 60000\<rparr>"
            "\<lparr>clo_cachedHost = Some ''https://tilecache.rainviewer.com'',
              clo_cachedPaths = Some samplePaths\<rparr>"
            59999 Rejected laterFrames "''https://cdn.rainviewer.com''"
            "[''/v2/radar/1700001800'']"
            RV_CACHE_initial sampleManifest
            "\<lparr>rv_at = 0, rv_data = Some sampleManifest\<rparr>" laterManifest]
          cache_ttl [of defaultProviderOpts 0 "Body sampleManifest" initialModuleVars
            initialClosureVars sampleFrames
            "\<lparr>mod_cachedFrames = Some sampleFrames, mod_cacheExpiresAt = 60000\<rparr>"
            "\<lparr>clo_cachedHost = Some ''https://tilecache.rainviewer.com'',
              clo_cachedPaths = Some samplePaths\<rparr>"
            60000 "Body laterManifest" laterFrames "''https://cdn.rainviewer.com''"
            "[''/v2/radar/1700001800'']"
            RV_CACHE_initial sampleManifest
            "\<lparr>rv_at = 0, rv_data = Some sampleManifest\<rparr>" laterManifest]
          first first' ttl ttl' nxt
    by simp
qed

text \<open>
  The adapter of \<open>radarIem.ts\<close> on the same manifest: \<open>fetchRainViewerFrames\<close> keeps the
  order of the response (it neither sorts nor truncates), and a body without host is stored
  by the tile-url call that then reports the missing host.
\<close>

lemma fetchRainViewerFrames_keeps_response_order:
  "fetchRainViewerFrames 0 (Body sampleManifest) RV_CACHE_initial
     = (Inr [\<lparr>scan_iso = ISO 1700000600000, scan_stamp = ''/v2/radar/1700000600''\<rparr>,
             \<lparr>scan_iso = ISO 1700000000000, scan_stamp = ''/v2/radar/1700000000''\<rparr>,
             \<lparr>scan_iso = ISO 1700001200000, scan_stamp = ''/v2/radar/1700001200''\<rparr>],
        \<lparr>rv_at = 0, rv_data = Some sampleManifest\<rparr>, 1)"
  by (simp add: fetchRainViewerFrames_def fetchRainViewerMapsJson_def RV_CACHE_initial_def
        sampleManifest_entries toScan_def toISOString_def ToIntegerOrInfinity_def entryTime_def
        entryPath_def)

lemma tile_url_without_host:
  "buildRainViewerTileUrlForFrame 0 (Body \<lparr>m_host = None, m_radar = None\<rparr>) RV_CACHE_initial
     ''/v2/radar/1700000000''
     = (Inl MissingHost, \<lparr>rv_at = 0, rv_data = Some \<lparr>m_host = None, m_radar = None\<rparr>\<rparr>, 1)"
  by (simp add: buildRainViewerTileUrlForFrame_def fetchRainViewerMapsJson_def RV_CACHE_initial_def)

section \<open>Nearest radar site: the scan\<close>

lemma js_less_left: "js_less NaN x = False" "js_less PosInf x = False"
  by (cases x; simp)+

lemma computedDistance_cases:
  "(\<exists>slat slon. site_lat s = Fin slat \<and> site_lon s = Fin slon \<and>
       computedDistance fp la lo s = fp_haversineKm fp la lo slat slon) \<or>
   ((\<forall>slat slon. \<not> (site_lat s = Fin slat \<and> site_lon s = Fin slon)) \<and>
       computedDistance fp la lo s = NaN)"
  by (cases "site_lat s"; cases "site_lon s") (simp_all add: computedDistance_def)

text \<open>A site that is no candidate is passed over, unless its distance comes out as \<open>-Infinity\<close>.\<close>

lemma scan_skip:
  "\<not> isCandidate fp la lo s \<Longrightarrow> computedDistance fp la lo s \<noteq> NegInf \<Longrightarrow>
   scanSites fp None la lo (s # rest) best = scanSites fp None la lo rest best"
  by (cases "site_lat s"; cases "site_lon s"; cases "computedDistance fp la lo s")
     (auto simp: isCandidate_def computedDistance_def js_less_left)

lemma scan_candidate_first:
  "isCandidate fp la lo s \<Longrightarrow>
   scanSites fp None la lo (s # rest) (None, PosInf) =
     scanSites fp None la lo rest (Some s, Fin (distanceTo fp la lo s))"
  by (cases "site_lat s"; cases "site_lon s"; cases "computedDistance fp la lo s")
     (auto simp: isCandidate_def distanceTo_def computedDistance_def)

lemma scan_candidate:
  "isCandidate fp la lo s \<Longrightarrow>
   scanSites fp None la lo (s # rest) (Some b, Fin bd) =
     (if distanceTo fp la lo s < bd
      then scanSites fp None la lo rest (Some s, Fin (distanceTo fp la lo s))
      else scanSites fp None la lo rest (Some b, Fin bd))"
  by (cases "site_lat s"; cases "site_lon s"; cases "computedDistance fp la lo s")
     (auto simp: isCandidate_def distanceTo_def computedDistance_def)

text \<open>With no candidate in the registry the best distance never becomes a finite number.\<close>

lemma scan_without_candidate:
  "\<forall>c \<in> set sites. \<not> isCandidate fp la lo c \<Longrightarrow> \<not> isFiniteNumber (snd best) \<Longrightarrow>
   \<not> isFiniteNumber (snd (scanSites fp None la lo sites best))"
proof (induction sites arbitrary: best)
  case Nil
  then show ?case by simp
next
  case (Cons x rest)
  have nc: "\<not> isFiniteNumber (computedDistance fp la lo x)"
    using Cons.prems(1) by (simp add: isCandidate_def)
  have rest: "\<forall>c \<in> set rest. \<not> isCandidate fp la lo c"
    using Cons.prems(1) by simp
  from computedDistance_cases [of x fp la lo] show ?case
  proof
    assume "\<exists>slat slon. site_lat x = Fin slat \<and> site_lon x = Fin slon \<and>
       computedDistance fp la lo x = fp_haversineKm fp la lo slat slon"
    then obtain slat slon where c: "site_lat x = Fin slat" "site_lon x = Fin slon"
      and d: "computedDistance fp la lo x = fp_haversineKm fp la lo slat slon"
      by blast
    have nd: "\<not> isFiniteNumber (fp_haversineKm fp la lo slat slon)"
      using nc d by simp
    have "scanSites fp None la lo (x # rest) best = scanSites fp None la lo rest best \<or>
          scanSites fp None la lo (x # rest) best =
            scanSites fp None la lo rest (Some x, fp_haversineKm fp la lo slat slon)"
      by (simp add: c Let_def)
    then show ?thesis
      using Cons.IH [OF rest, of best] Cons.prems(2)
        Cons.IH [OF rest, of "(Some x, fp_haversineKm fp la lo slat slon)"] nd
      by auto
  next
    assume "(\<forall>slat slon. \<not> (site_lat x = Fin slat \<and> site_lon x = Fin slon)) \<and>
       computedDistance fp la lo x = NaN"
    then have "scanSites fp None la lo (x # rest) best = scanSites fp None la lo rest best"
      by (cases "site_lat x"; cases "site_lon x") simp_all
    then show ?thesis
      using Cons.IH [OF rest, of best] Cons.prems(2) by simp
  qed
qed

declare scanSites.simps(2) [simp del]

text \<open>
  The scan started with a best pair: either that pair survives and no candidate is
  strictly nearer, or a strictly nearer candidate is returned, with every candidate before
  it strictly farther and every candidate after it at least as far.
\<close>

lemma scan_from_best:
  "\<forall>c \<in> set sites. computedDistance fp la lo c \<noteq> NegInf \<Longrightarrow>
   \<exists>s d. scanSites fp None la lo sites (Some b, Fin bd) = (Some s, Fin d) \<and>
     ((s = b \<and> d = bd \<and> (\<forall>c \<in> set sites. isCandidate fp la lo c \<longrightarrow> bd \<le> distanceTo fp la lo c)) \<or>
      (d < bd \<and> isCandidate fp la lo s \<and> d = distanceTo fp la lo s \<and>
       (\<exists>pre post. sites = pre @ s # post \<and>
          (\<forall>c \<in> set pre. isCandidate fp la lo c \<longrightarrow> d < distanceTo fp la lo c) \<and>
          (\<forall>c \<in> set post. isCandidate fp la lo c \<longrightarrow> d \<le> distanceTo fp la lo c))))"
proof (induction sites arbitrary: b bd)
  case Nil
  then show ?case by simp
next
  case (Cons x rest)
  have ninf_x: "computedDistance fp la lo x \<noteq> NegInf"
    and ninf_rest: "\<forall>c \<in> set rest. computedDistance fp la lo c \<noteq> NegInf"
    using Cons.prems by simp_all
  show ?case
  proof (cases "isCandidate fp la lo x")
    case False
    obtain s d where run: "scanSites fp None la lo rest (Some b, Fin bd) = (Some s, Fin d)"
      and alt: "(s = b \<and> d = bd \<and> (\<forall>c \<in> set rest. isCandidate fp la lo c \<longrightarrow> bd \<le> distanceTo fp la lo c)) \<or>
        (d < bd \<and> isCandidate fp la lo s \<and> d = distanceTo fp la lo s \<and>
         (\<exists>pre post. rest = pre @ s # post \<and>
            (\<forall>c \<in> set pre. isCandidate fp la lo c \<longrightarrow> d < distanceTo fp la lo c) \<and>
            (\<forall>c \<in> set post. isCandidate fp la lo c \<longrightarrow> d \<le> distanceTo fp la lo c)))"
      using Cons.IH [OF ninf_rest, of b bd] by blast
    have step: "scanSites fp None la lo (x # rest) (Some b, Fin bd) = (Some s, Fin d)"
      using run False ninf_x by (simp add: scan_skip)
    from alt show ?thesis
    proof
      assume keep: "s = b \<and> d = bd \<and> (\<forall>c \<in> set rest. isCandidate fp la lo c \<longrightarrow> bd \<le> distanceTo fp la lo c)"
      then have "\<forall>c \<in> set (x # rest). isCandidate fp la lo c \<longrightarrow> bd \<le> distanceTo fp la lo c"
        using False by simp
      then show ?thesis using step keep by blast
    next
      assume far: "d < bd \<and> isCandidate fp la lo s \<and> d = distanceTo fp la lo s \<and>
         (\<exists>pre post. rest = pre @ s # post \<and>
            (\<forall>c \<in> set pre. isCandidate fp la lo c \<longrightarrow> d < distanceTo fp la lo c) \<and>
            (\<forall>c \<in> set post. isCandidate fp la lo c \<longrightarrow> d \<le> distanceTo fp la lo c))"
      then obtain pre post where dec: "rest = pre @ s # post"
        and pre: "\<forall>c \<in> set pre. isCandidate fp la lo c \<longrightarrow> d < distanceTo fp la lo c"
        and post: "\<forall>c \<in> set post. isCandidate fp la lo c \<longrightarrow> d \<le> distanceTo fp la lo c"
        by blast
      have "x # rest = (x # pre) @ s # post" using dec by simp
      moreover have "\<forall>c \<in> set (x # pre). isCandidate fp la lo c \<longrightarrow> d < distanceTo fp la lo c"
        using pre False by simp
      ultimately have "d < bd \<and> isCandidate fp la lo s \<and> d = distanceTo fp la lo s \<and>
           (\<exists>pre post. x # rest = pre @ s # post \<and>
              (\<forall>c \<in> set pre. isCandidate fp la lo c \<longrightarrow> d < distanceTo fp la lo c) \<and>
              (\<forall>c \<in> set post. isCandidate fp la lo c \<longrightarrow> d \<le> distanceTo fp la lo c))"
        using far post by blast
      then show ?thesis using step by blast
    qed
  next
    case True
    show ?thesis
    proof (cases "distanceTo fp la lo x < bd")
      case near: True
      let ?dx = "distanceTo fp la lo x"
      obtain s d where run: "scanSites fp None la lo rest (Some x, Fin ?dx) = (Some s, Fin d)"
        and alt: "(s = x \<and> d = ?dx \<and> (\<forall>c \<in> set rest. isCandidate fp la lo c \<longrightarrow> ?dx \<le> distanceTo fp la lo c)) \<or>
          (d < ?dx \<and> isCandidate fp la lo s \<and> d = distanceTo fp la lo s \<and>
           (\<exists>pre post. rest = pre @ s # post \<and>
              (\<forall>c \<in> set pre. isCandidate fp la lo c \<longrightarrow> d < distanceTo fp la lo c) \<and>
              (\<forall>c \<in> set post. isCandidate fp la lo c \<longrightarrow> d \<le> distanceTo fp la lo c)))"
        using Cons.IH [OF ninf_rest, of x ?dx] by blast
      have step: "scanSites fp None la lo (x # rest) (Some b, Fin bd) = (Some s, Fin d)"
        using run near True by (simp add: scan_candidate)
      from alt show ?thesis
      proof
        assume keep: "s = x \<and> d = ?dx \<and> (\<forall>c \<in> set rest. isCandidate fp la lo c \<longrightarrow> ?dx \<le> distanceTo fp la lo c)"
        have "x # rest = [] @ s # rest" using keep by simp
        moreover have "\<forall>c \<in> set []. isCandidate fp la lo c \<longrightarrow> d < distanceTo fp la lo c" by simp
        ultimately have "\<exists>pre post. x # rest = pre @ s # post \<and>
              (\<forall>c \<in> set pre. isCandidate fp la lo c \<longrightarrow> d < distanceTo fp la lo c) \<and>
              (\<forall>c \<in> set post. isCandidate fp la lo c \<longrightarrow> d \<le> distanceTo fp la lo c)"
          using keep by blast
        then show ?thesis using step keep near True by blast
      next
        assume far: "d < ?dx \<and> isCandidate fp la lo s \<and> d = distanceTo fp la lo s \<and>
           (\<exists>pre post. rest = pre @ s # post \<and>
              (\<forall>c \<in> set pre. isCandidate fp la lo c \<longrightarrow> d < distanceTo fp la lo c) \<and>
              (\<forall>c \<in> set post. isCandidate fp la lo c \<longrightarrow> d \<le> distanceTo fp la lo c))"
        then obtain pre post where dec: "rest = pre @ s # post"
          and pre: "\<forall>c \<in> set pre. isCandidate fp la lo c \<longrightarrow> d < distanceTo fp la lo c"
          and post: "\<forall>c \<in> set post. isCandidate fp la lo c \<longrightarrow> d \<le> distanceTo fp la lo c"
          by blast
        have "x # rest = (x # pre) @ s # post" using dec by simp
        moreover have "\<forall>c \<in> set (x # pre). isCandidate fp la lo c \<longrightarrow> d < distanceTo fp la lo c"
          using pre far by simp
        moreover have "d < bd" using far near by simp
        ultimately have "d < bd \<and> isCandidate fp la lo s \<and> d = distanceTo fp la lo s \<and>
           (\<exists>pre post. x # rest = pre @ s # post \<and>
              (\<forall>c \<in> set pre. isCandidate fp la lo c \<longrightarrow> d < distanceTo fp la lo c) \<and>
              (\<forall>c \<in> set post. isCandidate fp la lo c \<longrightarrow> d \<le> distanceTo fp la lo c))"
          using far post by blast
        then show ?thesis using step by blast
      qed
    next
      case notnear: False
      obtain s d where run: "scanSites fp None la lo rest (Some b, Fin bd) = (Some s, Fin d)"
        and alt: "(s = b \<and> d = bd \<and> (\<forall>c \<in> set rest. isCandidate fp la lo c \<longrightarrow> bd \<le> distanceTo fp la lo c)) \<or>
          (d < bd \<and> isCandidate fp la lo s \<and> d = distanceTo fp la lo s \<and>
           (\<exists>pre post. rest = pre @ s # post \<and>
              (\<forall>c \<in> set pre. isCandidate fp la lo c \<longrightarrow> d < distanceTo fp la lo c) \<and>
              (\<forall>c \<in> set post. isCandidate fp la lo c \<longrightarrow> d \<le> distanceTo fp la lo c)))"
        using Cons.IH [OF ninf_rest, of b bd] by blast
      have step: "scanSites fp None la lo (x # rest) (Some b, Fin bd) = (Some s, Fin d)"
        using run notnear True by (simp add: scan_candidate)
      from alt show ?thesis
      proof
        assume keep: "s = b \<and> d = bd \<and> (\<forall>c \<in> set rest. isCandidate fp la lo c \<longrightarrow> bd \<le> distanceTo fp la lo c)"
        then have "\<forall>c \<in> set (x # rest). isCandidate fp la lo c \<longrightarrow> bd \<le> distanceTo fp la lo c"
          using notnear by simp
        then show ?thesis using step keep by blast
      next
        assume far: "d < bd \<and> isCandidate fp la lo s \<and> d = distanceTo fp la lo s \<and>
           (\<exists>pre post. rest = pre @ s # post \<and>
              (\<forall>c \<in> set pre. isCandidate fp la lo c \<longrightarrow> d < distanceTo fp la lo c) \<and>
              (\<forall>c \<in> set post. isCandidate fp la lo c \<longrightarrow> d \<le> distanceTo fp la lo c))"
        then obtain pre post where dec: "rest = pre @ s # post"
          and pre: "\<forall>c \<in> set pre. isCandidate fp la lo c \<longrightarrow> d < distanceTo fp la lo c"
          and post: "\<forall>c \<in> set post. isCandidate fp la lo c \<longrightarrow> d \<le> distanceTo fp la lo c"
          by blast
        have "x # rest = (x # pre) @ s # post" using dec by simp
        moreover have "\<forall>c \<in> set (x # pre). isCandidate fp la lo c \<longrightarrow> d < distanceTo fp la lo c"
          using pre far notnear by simp
        ultimately have "d < bd \<and> isCandidate fp la lo s \<and> d = distanceTo fp la lo s \<and>
           (\<exists>pre post. x # rest = pre @ s # post \<and>
              (\<forall>c \<in> set pre. isCandidate fp la lo c \<longrightarrow> d < distanceTo fp la lo c) \<and>
              (\<forall>c \<in> set post. isCandidate fp la lo c \<longrightarrow> d \<le> distanceTo fp la lo c))"
          using far post by blast
        then show ?thesis using step by blast
      qed
    qed
  qed
qed

text \<open>The scan started with nothing: the first candidate of least distance, if there is one.\<close>

lemma scan_from_nothing:
  "\<forall>c \<in> set sites. computedDistance fp la lo c \<noteq> NegInf \<Longrightarrow>
   \<exists>c \<in> set sites. isCandidate fp la lo c \<Longrightarrow>
   \<exists>s d pre post. scanSites fp None la lo sites (None, PosInf) = (Some s, Fin d) \<and>
     isCandidate fp la lo s \<and> d = distanceTo fp la lo s \<and> sites = pre @ s # post \<and>
     (\<forall>c \<in> set pre. isCandidate fp la lo c \<longrightarrow> d < distanceTo fp la lo c) \<and>
     (\<forall>c \<in> set post. isCandidate fp la lo c \<longrightarrow> d \<le> distanceTo fp la lo c)"
proof (induction sites)
  case Nil
  then show ?case by simp
next
  case (Cons x rest)
  have ninf_x: "computedDistance fp la lo x \<noteq> NegInf"
    and ninf_rest: "\<forall>c \<in> set rest. computedDistance fp la lo c \<noteq> NegInf"
    using Cons.prems by simp_all
  show ?case
  proof (cases "isCandidate fp la lo x")
    case False
    then have "\<exists>c \<in> set rest. isCandidate fp la lo c" using Cons.prems by auto
    then obtain s d pre post where run: "scanSites fp None la lo rest (None, PosInf) = (Some s, Fin d)"
      and s: "isCandidate fp la lo s" "d = distanceTo fp la lo s" and dec: "rest = pre @ s # post"
      and pre: "\<forall>c \<in> set pre. isCandidate fp la lo c \<longrightarrow> d < distanceTo fp la lo c"
      and post: "\<forall>c \<in> set post. isCandidate fp la lo c \<longrightarrow> d \<le> distanceTo fp la lo c"
      using Cons.IH [OF ninf_rest] by blast
    have "x # rest = (x # pre) @ s # post" using dec by simp
    moreover have "\<forall>c \<in> set (x # pre). isCandidate fp la lo c \<longrightarrow> d < distanceTo fp la lo c"
      using pre False by simp
    moreover have "scanSites fp None la lo (x # rest) (None, PosInf) = (Some s, Fin d)"
      using run False ninf_x by (simp add: scan_skip)
    ultimately show ?thesis using s post by blast
  next
    case True
    let ?dx = "distanceTo fp la lo x"
    have step: "scanSites fp None la lo (x # rest) (None, PosInf) = scanSites fp None la lo rest (Some x, Fin ?dx)"
      using True by (simp add: scan_candidate_first)
    obtain s d where run: "scanSites fp None la lo rest (Some x, Fin ?dx) = (Some s, Fin d)"
      and alt: "(s = x \<and> d = ?dx \<and> (\<forall>c \<in> set rest. isCandidate fp la lo c \<longrightarrow> ?dx \<le> distanceTo fp la lo c)) \<or>
          (d < ?dx \<and> isCandidate fp la lo s \<and> d = distanceTo fp la lo s \<and>
           (\<exists>pre post. rest = pre @ s # post \<and>
              (\<forall>c \<in> set pre. isCandidate fp la lo c \<longrightarrow> d < distanceTo fp la lo c) \<and>
              (\<forall>c \<in> set post. isCandidate fp la lo c \<longrightarrow> d \<le> distanceTo fp la lo c)))"
      using scan_from_best [OF ninf_rest, of x ?dx] by blast
    from alt show ?thesis
    proof
      assume keep: "s = x \<and> d = ?dx \<and> (\<forall>c \<in> set rest. isCandidate fp la lo c \<longrightarrow> ?dx \<le> distanceTo fp la lo c)"
      have "x # rest = [] @ s # rest" using keep by simp
      moreover have "\<forall>c \<in> set []. isCandidate fp la lo c \<longrightarrow> d < distanceTo fp la lo c" by simp
      ultimately show ?thesis using step run keep True by (metis (no_types, lifting))
    next
      assume far: "d < ?dx \<and> isCandidate fp la lo s \<and> d = distanceTo fp la lo s \<and>
           (\<exists>pre post. rest = pre @ s # post \<and>
              (\<forall>c \<in> set pre. isCandidate fp la lo c \<longrightarrow> d < distanceTo fp la lo c) \<and>
              (\<forall>c \<in> set post. isCandidate fp la lo c \<longrightarrow> d \<le> distanceTo fp la lo c))"
      then obtain pre post where dec: "rest = pre @ s # post"
        and pre: "\<forall>c \<in> set pre. isCandidate fp la lo c \<longrightarrow> d < distanceTo fp la lo c"
        and post: "\<forall>c \<in> set post. isCandidate fp la lo c \<longrightarrow> d \<le> distanceTo fp la lo c"
        by blast
      have "x # rest = (x # pre) @ s # post" using dec by simp
      moreover have "\<forall>c \<in> set (x # pre). isCandidate fp la lo c \<longrightarrow> d < distanceTo fp la lo c"
        using pre far by simp
      ultimately show ?thesis using step run far post by (metis (no_types, lifting))
    qed
  qed
qed

section \<open>Nearest radar site: the result\<close>

lemma resolve_without_candidate:
  "\<forall>c \<in> set sites. \<not> isCandidate fp la lo c \<Longrightarrow>
   resolveNearestRadar fp sites (Fin la) (Fin lo) noOptions = None"
proof -
  assume nc: "\<forall>c \<in> set sites. \<not> isCandidate fp la lo c"
  have "\<not> isFiniteNumber (snd (scanSites fp None la lo sites (None, PosInf)))"
    using scan_without_candidate [OF nc, of "(None, PosInf)"] by simp
  then show ?thesis
    by (cases "scanSites fp None la lo sites (None, PosInf)")
       (auto simp: resolveNearestRadar_def noOptions_def split: option.splits number.splits)
qed

text \<open>
  C6 (as stated): for every in-range point and every non-empty registry,
  \<open>resolveNearestRadar\<close> with no filter and no \<open>maxDistanceKm\<close> returns a site. A
  registry whose one site has a latitude that is not a finite number is not empty, and
  the result is \<open>null\<close>, whatever the distance function.
\<close>

theorem registry_without_candidate_counterexample:
  "[KTLX\<lparr>site_lat := NaN\<rparr>] \<noteq> [] \<and>
   resolveNearestRadar exampleFloat64 [KTLX\<lparr>site_lat := NaN\<rparr>] (Fin 33) (Fin (- 97)) noOptions
     = None"
  by (simp add: resolveNearestRadar_def noOptions_def scanSites.simps(2))

text \<open>
  C6 (amended). Let the point be in range (\<open>|lat| \<le> 90\<close>, \<open>|lon| \<le> 180\<close>), and call
  candidate a site of the registry with finite coordinates whose distance from the point,
  as \<open>haversineKm\<close> computes it in double precision, is a finite number; let no computed
  distance be \<open>-Infinity\<close>. Then \<open>resolveNearestRadar\<close> with no filter and no
  \<open>maxDistanceKm\<close> returns \<open>null\<close> when the registry has no candidate, and otherwise
  returns a candidate with its computed distance, which is at most the computed distance
  of every candidate and strictly less than that of every candidate before it in registry
  order: of the candidates at the least computed distance the first is returned.
\<close>

theorem nearest_site_is_first_minimum:
  assumes "- 90 \<le> la" "la \<le> 90" "- 180 \<le> lo" "lo \<le> 180"
    and "\<forall>c \<in> set sites. computedDistance fp la lo c \<noteq> NegInf"
  shows "((\<exists>c \<in> set sites. isCandidate fp la lo c) \<longrightarrow>
            (\<exists>r pre post. resolveNearestRadar fp sites (Fin la) (Fin lo) noOptions = Some r \<and>
               sites = pre @ res_site r # post \<and> isCandidate fp la lo (res_site r) \<and>
               res_distanceKm r = distanceTo fp la lo (res_site r) \<and>
               (\<forall>c \<in> set sites. isCandidate fp la lo c \<longrightarrow>
                    res_distanceKm r \<le> distanceTo fp la lo c) \<and>
               (\<forall>c \<in> set pre. isCandidate fp la lo c \<longrightarrow>
                    res_distanceKm r < distanceTo fp la lo c))) \<and>
         ((\<forall>c \<in> set sites. \<not> isCandidate fp la lo c) \<longrightarrow>
            resolveNearestRadar fp sites (Fin la) (Fin lo) noOptions = None)"
proof (intro conjI impI)
  assume "\<exists>c \<in> set sites. isCandidate fp la lo c"
  then obtain s d pre post where run: "scanSites fp None la lo sites (None, PosInf) = (Some s, Fin d)"
    and s: "isCandidate fp la lo s" "d = distanceTo fp la lo s" and dec: "sites = pre @ s # post"
    and pre: "\<forall>c \<in> set pre. isCandidate fp la lo c \<longrightarrow> d < distanceTo fp la lo c"
    and post: "\<forall>c \<in> set post. isCandidate fp la lo c \<longrightarrow> d \<le> distanceTo fp la lo c"
    using scan_from_nothing [OF assms(5)] by blast
  obtain slat slon where c: "site_lat s = Fin slat" "site_lon s = Fin slon"
    using s(1) computedDistance_cases [of s fp la lo] by (auto simp: isCandidate_def)
  let ?r = "\<lparr>res_site = s, res_distanceKm = d, res_distanceMi = fp_toMiles fp d,
             res_bearingDeg = fp_bearingDeg fp la lo slat slon\<rparr>"
  have res: "resolveNearestRadar fp sites (Fin la) (Fin lo) noOptions = Some ?r"
    using assms(1-4) run c by (simp add: resolveNearestRadar_def noOptions_def)
  have all: "\<forall>c \<in> set sites. isCandidate fp la lo c \<longrightarrow> d \<le> distanceTo fp la lo c"
    using pre post s(2) dec by auto
  show "\<exists>r pre post. resolveNearestRadar fp sites (Fin la) (Fin lo) noOptions = Some r \<and>
               sites = pre @ res_site r # post \<and> isCandidate fp la lo (res_site r) \<and>
               res_distanceKm r = distanceTo fp la lo (res_site r) \<and>
               (\<forall>c \<in> set sites. isCandidate fp la lo c \<longrightarrow>
                    res_distanceKm r \<le> distanceTo fp la lo c) \<and>
               (\<forall>c \<in> set pre. isCandidate fp la lo c \<longrightarrow>
                    res_distanceKm r < distanceTo fp la lo c)"
    using res dec s all pre by (intro exI [of _ ?r] exI [of _ pre] exI [of _ post]) simp
next
  assume "\<forall>c \<in> set sites. \<not> isCandidate fp la lo c"
  then show "resolveNearestRadar fp sites (Fin la) (Fin lo) noOptions = None"
    by (rule resolve_without_candidate)
qed

text \<open>
  The sites of the specification's example and a twin of \<open>KFWS\<close> behind it, from the
  example's point \<open>(33.0, -97.0)\<close>: \<open>KTLX\<close>, first in the registry, is farther;
  \<open>KFWS\<close> and its twin are at the same distance, and \<open>KFWS\<close>, the first of the two,
  is returned.
\<close>

lemma example_distances:
  "computedDistance exampleFloat64 la lo KTLX = Fin 260.675"
  "computedDistance exampleFloat64 la lo KFWS = Fin 55.287"
  "computedDistance exampleFloat64 la lo (KFWS\<lparr>site_id := ''TWIN''\<rparr>) = Fin 55.287"
  by (simp_all add: computedDistance_def exampleFloat64_def KTLX_def KFWS_def)

lemma example_candidates:
  "isCandidate exampleFloat64 la lo KTLX" "distanceTo exampleFloat64 la lo KTLX = 260.675"
  "isCandidate exampleFloat64 la lo KFWS" "distanceTo exampleFloat64 la lo KFWS = 55.287"
  "isCandidate exampleFloat64 la lo (KFWS\<lparr>site_id := ''TWIN''\<rparr>)"
  "distanceTo exampleFloat64 la lo (KFWS\<lparr>site_id := ''TWIN''\<rparr>) = 55.287"
  by (simp_all add: isCandidate_def distanceTo_def example_distances)

lemma example_scan:
  "scanSites exampleFloat64 None la lo [KTLX, KFWS, KFWS\<lparr>site_id := ''TWIN''\<rparr>] (None, PosInf)
     = (Some KFWS, Fin 55.287)"
  by (simp add: scan_candidate_first scan_candidate example_candidates)

lemma example_resolve:
  "resolveNearestRadar exampleFloat64 [KTLX, KFWS, KFWS\<lparr>site_id := ''TWIN''\<rparr>]
       (Fin 33) (Fin (- 97)) noOptions
     = Some \<lparr>res_site = KFWS, res_distanceKm = 55.287,
             res_distanceMi = Fin (55.287 * 0.621371), res_bearingDeg = Fin 210.901\<rparr>"
proof -
  have c: "site_lat KFWS = Fin 32.573" "site_lon KFWS = Fin (- 97.303)"
    by (simp_all add: KFWS_def)
  have fp: "fp_toMiles exampleFloat64 x = Fin (x * 0.621371)"
      "s \<noteq> 35.333 \<Longrightarrow> fp_bearingDeg exampleFloat64 a b s y = Fin 210.901" for x a b s y
    by (simp_all add: exampleFloat64_def)
  show ?thesis
    unfolding resolveNearestRadar_def
    by (simp add: noOptions_def example_scan c fp)
qed

theorem nearest_site_is_first_minimum_witness:
  "- 90 \<le> (33 :: real) \<and> (33 :: real) \<le> 90 \<and> - 180 \<le> (- 97 :: real) \<and> (- 97 :: real) \<le> 180 \<and>
   computedDistance exampleFloat64 33 (- 97) KTLX = Fin 260.675 \<and>
   computedDistance exampleFloat64 33 (- 97) KFWS = Fin 55.287 \<and>
   computedDistance exampleFloat64 33 (- 97) (KFWS\<lparr>site_id := ''TWIN''\<rparr>) = Fin 55.287 \<and>
   isCandidate exampleFloat64 33 (- 97) KFWS \<and>
   resolveNearestRadar exampleFloat64 [KTLX, KFWS, KFWS\<lparr>site_id := ''TWIN''\<rparr>]
       (Fin 33) (Fin (- 97)) noOptions
     = Some \<lparr>res_site = KFWS, res_distanceKm = 55.287,
             res_distanceMi = Fin (55.287 * 0.621371), res_bearingDeg = Fin 210.901\<rparr> \<and>
   [KTLX, KFWS, KFWS\<lparr>site_id := ''TWIN''\<rparr>] = [KTLX] @ KFWS # [KFWS\<lparr>site_id := ''TWIN''\<rparr>] \<and>
   distanceTo exampleFloat64 33 (- 97) KFWS < distanceTo exampleFloat64 33 (- 97) KTLX \<and>
   distanceTo exampleFloat64 33 (- 97) KFWS
     = distanceTo exampleFloat64 33 (- 97) (KFWS\<lparr>site_id := ''TWIN''\<rparr>) \<and>
   resolveNearestRadar exampleFloat64 [KTLX\<lparr>site_lat := NaN\<rparr>] (Fin 33) (Fin (- 97)) noOptions
     = None"
proof -
  have range: "- 90 \<le> (33 :: real)" "(33 :: real) \<le> 90"
      "- 180 \<le> (- 97 :: real)" "(- 97 :: real) \<le> 180"
    by simp_all
  have ninf: "\<forall>c \<in> set [KTLX, KFWS, KFWS\<lparr>site_id := ''TWIN''\<rparr>].
       computedDistance exampleFloat64 33 (- 97) c \<noteq> NegInf"
    by (simp add: example_distances)
  have cand: "\<exists>c \<in> set [KTLX, KFWS, KFWS\<lparr>site_id := ''TWIN''\<rparr>].
       isCandidate exampleFloat64 33 (- 97) c"
    by (simp add: example_candidates)
  have none: "computedDistance exampleFloat64 33 (- 97) (KTLX\<lparr>site_lat := NaN\<rparr>) = NaN"
    by (simp add: computedDistance_def)
  have ninf': "\<forall>c \<in> set [KTLX\<lparr>site_lat := NaN\<rparr>].
       computedDistance exampleFloat64 33 (- 97) c \<noteq> NegInf"
    by (simp add: none)
  have nc: "\<forall>c \<in> set [KTLX\<lparr>site_lat := NaN\<rparr>]. \<not> isCandidate exampleFloat64 33 (- 97) c"
    by (simp add: isCandidate_def none)
  show ?thesis
    using nearest_site_is_first_minimum [OF range ninf]
      nearest_site_is_first_minimum [OF range ninf'] cand nc
    by (simp add: example_resolve example_candidates example_distances)
qed

section \<open>Crossfade\<close>

lemma configured_screenInitialState: "configured screenInitialState = Fin 0.9"
  by (simp add: configured_def screenInitialState_def createInitialMapState_def MAP_VIEWS_def
        LAYER_CATALOG_def buildDefaultLayers_def Object_fromEntries_def applyPresetEnabled_def)

lemma configured_radarDimmedState: "configured radarDimmedState = Fin 0.3"
  by (simp add: configured_def radarDimmedState_def screenInitialState_def
        createInitialMapState_def MAP_VIEWS_def LAYER_CATALOG_def buildDefaultLayers_def
        Object_fromEntries_def applyPresetEnabled_def spreadLayer_def clamp01_def)

lemma nerdy_examples: "\<not> nerdy screenInitialState" "\<not> nerdy radarDimmedState"
  by (simp_all add: radarDimmedState_def screenInitialState_def createInitialMapState_def Let_def)

lemma radarOpacity_of_configured:
  "configured st = Fin c \<Longrightarrow>
   radarOpacity st = Fin (min 1 (max (if nerdy st then 0.55 else 0.75) c))"
  by (simp add: radarOpacity_def)

lemma opacity_sum: "baseOpacity x cf + fadeOpacity x cf = x"
  by (simp add: baseOpacity_def fadeOpacity_def algebra_simps)

text \<open>
  C2 (as stated): during a fade the two opacities add up to the configured radar opacity.
  They add up to \<open>radarOpacity\<close>, which is the configured opacity only while that lies
  in \<open>[0.75, 1]\<close> (\<open>[0.55, 1]\<close> in nerdy mode). With the radar layer set to 0.3, a quarter
  of the way through a fade, the two opacities are 0.5625 and 0.1875: the sum is 0.75.
\<close>

theorem crossfade_sum_not_configured_counterexample:
  "configured radarDimmedState = Fin 0.3 \<and>
   radarOpacity radarDimmedState = Fin 0.75 \<and>
   truthy (fadeUrl (tick 1070 (onResolvedTargetUrl 1000 (Some ''frame-b'')
       (initialCrossfade\<lparr>baseUrl := Some ''frame-a''\<rparr>)))) \<and>
   fadeT (tick 1070 (onResolvedTargetUrl 1000 (Some ''frame-b'')
       (initialCrossfade\<lparr>baseUrl := Some ''frame-a''\<rparr>))) = 1 / 4 \<and>
   baseOpacity 0.75 (tick 1070 (onResolvedTargetUrl 1000 (Some ''frame-b'')
       (initialCrossfade\<lparr>baseUrl := Some ''frame-a''\<rparr>))) = 0.5625 \<and>
   fadeOpacity 0.75 (tick 1070 (onResolvedTargetUrl 1000 (Some ''frame-b'')
       (initialCrossfade\<lparr>baseUrl := Some ''frame-a''\<rparr>))) = 0.1875 \<and>
   (0.5625 :: real) + 0.1875 \<noteq> 0.3"
proof -
  let ?mid = "tick 1070 (onResolvedTargetUrl 1000 (Some ''frame-b'')
       (initialCrossfade\<lparr>baseUrl := Some ''frame-a''\<rparr>))"
  have mid: "?mid = \<lparr>baseUrl = Some ''frame-a'', fadeUrl = Some ''frame-b'', fadeT = 1 / 4,
                     animTarget = Some ''frame-b'', animStart = 1000\<rparr>"
    by (simp add: tick_def onResolvedTargetUrl_def initialCrossfade_def truthy_def Let_def)
  have op: "radarOpacity radarDimmedState = Fin 0.75"
    using radarOpacity_of_configured [OF configured_radarDimmedState] nerdy_examples(2) by simp
  show ?thesis
    by (simp add: mid op configured_radarDimmedState truthy_def baseOpacity_def fadeOpacity_def)
qed

text \<open>
  C2 (amended). The crossfade works with \<open>radarOpacity\<close>, the configured radar opacity
  held within \<open>[0.75, 1]\<close>, or \<open>[0.55, 1]\<close> in nerdy mode. While a fade template is set
  and the progress is in \<open>[0, 1]\<close>, \<open>baseOpacity + fadeOpacity\<close> equals \<open>radarOpacity\<close>, and
  neither opacity is negative; while no fade template is set, \<open>baseOpacity\<close> equals
  \<open>radarOpacity\<close> and \<open>fadeOpacity\<close> is 0. The sum is the configured opacity itself
  exactly when that lies within the bounds.
\<close>

theorem crossfade_opacity_sum:
  "(configured st = Fin c \<longrightarrow>
      radarOpacity st = Fin (min 1 (max (if nerdy st then 0.55 else 0.75) c))) \<and>
   (radarOpacity st = Fin op \<and> truthy (fadeUrl cf) \<and> 0 \<le> fadeT cf \<and> fadeT cf \<le> 1
      \<longrightarrow> baseOpacity op cf + fadeOpacity op cf = op \<and>
          0 \<le> baseOpacity op cf \<and> 0 \<le> fadeOpacity op cf) \<and>
   (radarOpacity st = Fin op \<and> \<not> truthy (fadeUrl cf)
      \<longrightarrow> baseOpacity op cf = op \<and> fadeOpacity op cf = 0) \<and>
   (configured st = Fin c \<and> radarOpacity st = Fin op
      \<longrightarrow> (baseOpacity op cf + fadeOpacity op cf = c
             \<longleftrightarrow> (if nerdy st then 0.55 else 0.75) \<le> c \<and> c \<le> 1))"
proof (intro conjI impI)
  assume "configured st = Fin c"
  then show "radarOpacity st = Fin (min 1 (max (if nerdy st then 0.55 else 0.75) c))"
    by (rule radarOpacity_of_configured)
next
  assume a: "radarOpacity st = Fin op \<and> truthy (fadeUrl cf) \<and> 0 \<le> fadeT cf \<and> fadeT cf \<le> 1"
  show "baseOpacity op cf + fadeOpacity op cf = op"
    by (rule opacity_sum)
  have "0 \<le> op"
    using a by (auto simp: radarOpacity_def split: if_splits elim!: Math_min.elims Math_max.elims)
  then show "0 \<le> baseOpacity op cf" "0 \<le> fadeOpacity op cf"
    using a by (simp_all add: baseOpacity_def fadeOpacity_def)
next
  assume "radarOpacity st = Fin op \<and> \<not> truthy (fadeUrl cf)"
  then show "baseOpacity op cf = op" "fadeOpacity op cf = 0"
    by (simp_all add: baseOpacity_def fadeOpacity_def)
next
  assume a: "configured st = Fin c \<and> radarOpacity st = Fin op"
  then have op: "op = min 1 (max (if nerdy st then 0.55 else 0.75) c)"
    using radarOpacity_of_configured [of st c] by simp
  have "op = c \<longleftrightarrow> (if nerdy st then 0.55 else 0.75) \<le> c \<and> c \<le> 1"
    unfolding op by auto
  then show "baseOpacity op cf + fadeOpacity op cf = c
          \<longleftrightarrow> (if nerdy st then 0.55 else 0.75) \<le> c \<and> c \<le> 1"
    by (simp only: opacity_sum)
qed

theorem crossfade_opacity_sum_witness:
  "configured screenInitialState = Fin 0.9 \<and> radarOpacity screenInitialState = Fin 0.9 \<and>
   baseOpacity 0.9 (tick 1070 (onResolvedTargetUrl 1000 (Some ''frame-b'')
       (initialCrossfade\<lparr>baseUrl := Some ''frame-a''\<rparr>))) +
   fadeOpacity 0.9 (tick 1070 (onResolvedTargetUrl 1000 (Some ''frame-b'')
       (initialCrossfade\<lparr>baseUrl := Some ''frame-a''\<rparr>))) = 0.9 \<and>
   baseOpacity 0.9 (initialCrossfade\<lparr>baseUrl := Some ''frame-a''\<rparr>) = 0.9 \<and>
   fadeOpacity 0.9 (initialCrossfade\<lparr>baseUrl := Some ''frame-a''\<rparr>) = 0"
proof -
  let ?idle = "initialCrossfade\<lparr>baseUrl := Some ''frame-a''\<rparr>"
  let ?mid = "tick 1070 (onResolvedTargetUrl 1000 (Some ''frame-b'') ?idle)"
  have mid: "?mid = \<lparr>baseUrl = Some ''frame-a'', fadeUrl = Some ''frame-b'', fadeT = 1 / 4,
                     animTarget = Some ''frame-b'', animStart = 1000\<rparr>"
    by (simp add: tick_def onResolvedTargetUrl_def initialCrossfade_def truthy_def Let_def)
  have fading: "truthy (fadeUrl ?mid)" "0 \<le> fadeT ?mid" "fadeT ?mid \<le> 1"
    by (simp_all add: mid truthy_def)
  have idle: "\<not> truthy (fadeUrl ?idle)"
    by (simp add: initialCrossfade_def truthy_def)
  have c: "configured screenInitialState = Fin 0.9"
    by (rule configured_screenInitialState)
  have op: "radarOpacity screenInitialState = Fin 0.9"
    using radarOpacity_of_configured [OF c] nerdy_examples(1) by simp
  have bounds: "(if nerdy screenInitialState then 0.55 else 0.75) \<le> (0.9 :: real)" "(0.9 :: real) \<le> 1"
    using nerdy_examples(1) by simp_all
  show ?thesis
    using crossfade_opacity_sum [of screenInitialState "0.9" "0.9" ?mid]
      crossfade_opacity_sum [of screenInitialState "0.9" "0.9" ?idle]
      c op fading idle bounds
    by simp
qed


end
